theory Spec2Isabelle
  imports Main
begin

section \<open>Host scheduler and \<open>ST.timeout\<close> (serve/orion.js)\<close>

text \<open>
  Modelled from the spec: the host scheduler \<open>ST.defer\<close> / \<open>ST.deferCancel\<close> is not part
  of the sources; the spec (section 6) gives it as \<open>defer(fn, delayMs) \<rightarrow> cancelHandle\<close> and
  \<open>cancel(cancelHandle)\<close>. The host is the list of armed timer handles together with the
  next handle to hand out; handles are positive.
\<close>

record host =
  armed :: "nat list"
  nextTimer :: nat

definition host0 :: host where
  "host0 = \<lparr>armed = [], nextTimer = 1\<rparr>"

definition ST_defer :: "host \<Rightarrow> nat \<times> host" where
  "ST_defer h =
     (nextTimer h, h\<lparr>armed := armed h @ [nextTimer h], nextTimer := Suc (nextTimer h)\<rparr>)"

definition ST_deferCancel :: "nat \<Rightarrow> host \<Rightarrow> host" where
  "ST_deferCancel tid h = h\<lparr>armed := removeAll tid (armed h)\<rparr>"

text \<open>
  The value returned by \<open>ST.timeout\<close>: either \<open>ST.emptyFn\<close> or the \<open>cancelFn\<close> closure of
  \<open>ST.doTimeout\<close>, which carries the properties \<open>timerId\<close> and \<open>timeout\<close>.
\<close>

datatype timer_fn = EmptyFn | CancelFn nat int

definition ST_doTimeout :: "int \<Rightarrow> host \<Rightarrow> timer_fn \<times> host" where
  "ST_doTimeout ms h = (case ST_defer h of (tid, h') \<Rightarrow> (CancelFn tid ms, h'))"

text \<open>
  \<open>ST.timeout(fn, scope, millisec)\<close>. The first argument is the value of
  \<open>ST.options.timeout\<close> (\<open>None\<close> for \<open>undefined\<close>), the second is \<open>millisec\<close> (\<open>None\<close> for
  \<open>undefined\<close>/\<open>null\<close>). The result \<open>ms ? ST.doTimeout(...) : ST.emptyFn\<close> tests \<open>ms\<close> for
  truthiness: \<open>undefined\<close> and \<open>0\<close> are falsy.
\<close>

definition ST_timeout :: "int option \<Rightarrow> int option \<Rightarrow> host \<Rightarrow> timer_fn \<times> host" where
  "ST_timeout optTimeout millisec h =
     (let ms = (if optTimeout \<noteq> Some 0 \<and> millisec \<noteq> None then millisec else optTimeout)
      in case ms of
           None \<Rightarrow> (EmptyFn, h)
         | Some m \<Rightarrow> if m \<noteq> 0 then ST_doTimeout m h else (EmptyFn, h))"

text \<open>Calling the returned function: \<open>cancelFn\<close> cancels its timer when \<open>timerId > 0\<close>.\<close>

fun call_timer :: "timer_fn \<Rightarrow> host \<Rightarrow> host" where
  "call_timer EmptyFn h = h"
| "call_timer (CancelFn tid ms) h = (if tid > 0 then ST_deferCancel tid h else h)"

fun timer_armed :: "timer_fn \<Rightarrow> host \<Rightarrow> bool" where
  "timer_armed EmptyFn h = False"
| "timer_armed (CancelFn tid ms) h = (tid > 0 \<and> tid \<in> set (armed h))"


section \<open>\<open>ST.WatchDog\<close> (serve/orion.js)\<close>

text \<open>
  The argument a WatchDog passes to its callback: \<open>null\<close> from \<open>done\<close>, an error from
  \<open>fail\<close>, or the timeout message built by \<open>onTick\<close>. The message text
  \<open>'Timeout waiting for test step to complete (<timeout/1000> sec).'\<close> is kept in
  structured form: the number of milliseconds, and whether the hint about calling
  \<open>done()\<close> is appended (it is when no explicit timeout was passed).
\<close>

datatype wd_error = Null | UserError string | TickMessage "int option" bool

record 'c WatchDog =
  callback :: "'c option"
  hasScope :: bool
  timer :: "timer_fn option"
  timeout :: "int option"

text \<open>\<open>cancel\<close>: a function value is truthy, so \<open>if (timer)\<close> tests for non-null.\<close>

definition wd_cancel :: "'c WatchDog \<times> host \<Rightarrow> 'c WatchDog \<times> host" where
  "wd_cancel wh =
     (case wh of (w, h) \<Rightarrow>
        (case timer w of
           None \<Rightarrow> (w, h)
         | Some t \<Rightarrow> (w\<lparr>timer := None, timeout := None\<rparr>, call_timer t h)))"

definition wd_destroy :: "'c WatchDog \<times> host \<Rightarrow> 'c WatchDog \<times> host" where
  "wd_destroy wh =
     (case wd_cancel wh of (w, h) \<Rightarrow> (w\<lparr>callback := None, hasScope := False\<rparr>, h))"

text \<open>
  \<open>fire\<close>: the call of the callback is the last statement, so it is returned as the
  effect of the step (the callback and its argument), after the state has been updated.
\<close>

definition wd_fire ::
  "wd_error \<Rightarrow> 'c WatchDog \<times> host \<Rightarrow> ('c WatchDog \<times> host) \<times> ('c \<times> wd_error) option" where
  "wd_fire e wh =
     (case wd_cancel wh of (w, h) \<Rightarrow>
        (case callback w of
           None \<Rightarrow> ((w, h), None)
         | Some c \<Rightarrow> ((w\<lparr>callback := None\<rparr>, h), Some (c, e))))"

definition wd_done ::
  "'c WatchDog \<times> host \<Rightarrow> ('c WatchDog \<times> host) \<times> ('c \<times> wd_error) option" where
  "wd_done wh = wd_fire Null wh"

text \<open>\<open>fail(e)\<close> fires \<open>e || new Error('Test failed')\<close>; the empty string is falsy too.\<close>

definition wd_fail ::
  "string option \<Rightarrow> 'c WatchDog \<times> host \<Rightarrow> ('c WatchDog \<times> host) \<times> ('c \<times> wd_error) option" where
  "wd_fail e wh =
     (case e of
        None \<Rightarrow> wd_fire (UserError ''Test failed'') wh
      | Some m \<Rightarrow> if m = [] then wd_fire (UserError ''Test failed'') wh
                  else wd_fire (UserError m) wh)"

text \<open>
  \<open>onTick\<close>: \<open>me.timeout || me.timer.timeout\<close> takes the stored timeout when it is truthy
  and otherwise the \<open>timeout\<close> property of the timer function (\<open>undefined\<close> on
  \<open>ST.emptyFn\<close>).
\<close>

fun timer_timeout :: "timer_fn \<Rightarrow> int option" where
  "timer_timeout EmptyFn = None"
| "timer_timeout (CancelFn tid ms) = Some ms"

definition truthy_num :: "int option \<Rightarrow> bool" where
  "truthy_num x = (case x of None \<Rightarrow> False | Some n \<Rightarrow> n \<noteq> 0)"

definition wd_onTick ::
  "'c WatchDog \<times> host \<Rightarrow> ('c WatchDog \<times> host) \<times> ('c \<times> wd_error) option" where
  "wd_onTick wh =
     (case wh of (w, h) \<Rightarrow>
        (let hasTimeout = truthy_num (timeout w) in
         case timer w of
           None \<Rightarrow> ((w, h), None)
         | Some t \<Rightarrow>
             (let tmo = (if truthy_num (timeout w) then timeout w else timer_timeout t);
                  msg = TickMessage tmo (\<not> hasTimeout)
              in wd_fire msg (w\<lparr>timer := None, timeout := None\<rparr>, h))))"

definition wd_set :: "int option \<Rightarrow> int option \<Rightarrow> 'c WatchDog \<times> host \<Rightarrow> 'c WatchDog \<times> host" where
  "wd_set optTimeout tmo wh =
     (case wd_cancel wh of (w, h) \<Rightarrow>
        (case ST_timeout optTimeout tmo h of (t, h') \<Rightarrow>
           (w\<lparr>timer := Some t, timeout := tmo\<rparr>, h')))"

text \<open>The constructor \<open>new ST.WatchDog(callback, scope, timeout)\<close>.\<close>

definition new_WatchDog ::
  "int option \<Rightarrow> 'c \<Rightarrow> bool \<Rightarrow> int option \<Rightarrow> host \<Rightarrow> 'c WatchDog \<times> host" where
  "new_WatchDog optTimeout cb scoped tmo h =
     wd_set optTimeout tmo
       (\<lparr>callback = Some cb, hasScope = scoped, timer = None, timeout = None\<rparr>, h)"

text \<open>
  Everything that can happen to a WatchDog after its construction: the user calls
  \<open>done\<close> or \<open>fail\<close>, the host delivers a tick of the deadline timer, or the owner calls
  \<open>cancel\<close>, \<open>destroy\<close> or \<open>set\<close>. A run collects the callback invocations in order.
\<close>

datatype wd_op = OpDone | OpFail "string option" | OpTick | OpCancel | OpDestroy | OpSet "int option"

fun wd_step ::
  "int option \<Rightarrow> wd_op \<Rightarrow> 'c WatchDog \<times> host \<Rightarrow> ('c WatchDog \<times> host) \<times> ('c \<times> wd_error) option" where
  "wd_step opt OpDone wh = wd_done wh"
| "wd_step opt (OpFail e) wh = wd_fail e wh"
| "wd_step opt OpTick wh = wd_onTick wh"
| "wd_step opt OpCancel wh = (wd_cancel wh, None)"
| "wd_step opt OpDestroy wh = (wd_destroy wh, None)"
| "wd_step opt (OpSet tmo) wh = (wd_set opt tmo wh, None)"

fun wd_run ::
  "int option \<Rightarrow> wd_op list \<Rightarrow> 'c WatchDog \<times> host \<Rightarrow> ('c WatchDog \<times> host) \<times> ('c \<times> wd_error) list" where
  "wd_run opt [] wh = (wh, [])"
| "wd_run opt (a # as) wh =
     (case wd_step opt a wh of
        (wh', c) \<Rightarrow>
          (case wd_run opt as wh' of
             (wh'', cs) \<Rightarrow> (wh'', (case c of None \<Rightarrow> [] | Some i \<Rightarrow> [i]) @ cs)))"



section \<open>\<open>ST.event.Playable\<close> (serve/event/Player.js)\<close>

text \<open>
  A \<open>target\<close> / \<open>relatedTarget\<close> value: \<open>undefined\<close>, a number (a relative
  back-reference, until \<open>add\<close> resolves it), a locator string, another Playable (its
  address in the object store), an \<open>ST.Element\<close> wrapper (its address in the element
  store; it has \<open>dom\<close> and \<open>$ST\<close>), a foreign object with a \<open>dom\<close> property (the DOM
  node it holds), a DOM node, or a function returning a node.
\<close>

datatype target =
  TUndef | TNum int | TStr string | TPlayable nat | TEl nat | TExtEl nat | TNode nat | TFunc nat

text \<open>The \<open>visible\<close> / \<open>available\<close> configs: \<open>undefined\<close> or \<open>true\<close>, \<open>false\<close>, \<open>null\<close>.\<close>

datatype tri = Dflt | No | NullV

text \<open>
  The \<open>fn\<close> of a playable: a user function (an index into the table of user functions of
  the environment) or the \<open>tail\<close> closure that \<open>ST.play\<close> appends.
\<close>

datatype fnref = UserFn nat | TailFn

text \<open>
  The \<open>ready\<close> method: the prototype's composite check, \<open>isTapGestureReady\<close> (installed
  by \<open>expandTap\<close>), or a custom function supplied in the config (decided by the
  environment).
\<close>

datatype ready_fn = ReadyDefault | ReadyTapGesture | ReadyCustom nat

record Playable =
  ptype :: "string option"
  target :: target
  relatedTarget :: target
  targetEl :: "nat option"
  relatedEl :: "nat option"
  relatedTargetEl :: "nat option"
  fn :: "fnref option"
  delay :: "int option"
  animation :: "bool option"
  visible :: tri
  available :: tri
  ev_timeout :: "int option"
  hasPlayer :: bool
  pid :: nat
  state :: string
  waitStartTime :: int
  waitingFor :: "string option"
  waitingState :: "string option"
  ready :: ready_fn
  ev_x :: "int option"
  ev_y :: "int option"
  metaKey :: "bool option"
  shiftKey :: "bool option"
  ctrlKey :: "bool option"
  button :: "int option"
  detail :: "int option"
  key :: "string option"
  etext :: "string option"
  caret :: "int option"

text \<open>The prototype: \<open>state: 'init'\<close>, \<open>waitStartTime: 0\<close>, every config undefined.\<close>

definition Playable0 :: Playable where
  "Playable0 =
     \<lparr>ptype = None, target = TUndef, relatedTarget = TUndef, targetEl = None,
      relatedEl = None, relatedTargetEl = None, fn = None, delay = None, animation = None,
      visible = Dflt, available = Dflt, ev_timeout = None, hasPlayer = False, pid = 0,
      state = ''init'', waitStartTime = 0, waitingFor = None, waitingState = None,
      ready = ReadyDefault, ev_x = None, ev_y = None, metaKey = None, shiftKey = None,
      ctrlKey = None, button = None, detail = None, key = None, etext = None, caret = None\<rparr>"

text \<open>
  An element of the array passed to \<open>add\<close>: a falsy value other than \<open>0\<close> (skipped), a
  number, a function, a config object, or an existing Playable instance (its address).
\<close>

datatype entry = Falsy | ENum int | EFn fnref | ECfg Playable | EInst nat

text \<open>The constructor \<open>new ST.event.Playable(config)\<close> for the three kinds of config.\<close>

fun new_Playable :: "entry \<Rightarrow> Playable" where
  "new_Playable (EFn f) = Playable0\<lparr>fn := Some f, delay := Some 0\<rparr>"
| "new_Playable (ENum n) = Playable0\<lparr>delay := Some n\<rparr>"
| "new_Playable (ECfg c) = (if delay c = None \<and> fn c \<noteq> None then c\<lparr>delay := Some 0\<rparr> else c)"
| "new_Playable e = Playable0"

text \<open>Truthiness of a string-valued property and of a target.\<close>

definition truthy_str :: "string option \<Rightarrow> bool" where
  "truthy_str s = (case s of None \<Rightarrow> False | Some v \<Rightarrow> v \<noteq> [])"

fun truthy_target :: "target \<Rightarrow> bool" where
  "truthy_target TUndef = False"
| "truthy_target (TNum n) = (n \<noteq> 0)"
| "truthy_target (TStr s) = (s \<noteq> [])"
| "truthy_target t = True"


section \<open>\<open>ST.event.Player\<close>: state (serve/event/Player.js)\<close>

text \<open>
  What the Player tells its collaborators, in order: an event injected through the
  Injector (the playable, its type, \<open>targetEl\<close> and \<open>relatedEl\<close>), a call of a playable's
  \<open>fn\<close>, an event fired to the listeners (\<open>error\<close> with its message, \<open>end\<close>), and an
  exception that leaves the Player uncaught.
\<close>

datatype obs =
    Injected nat string "nat option" "nat option"
  | Called nat fnref
  | FiredError string
  | FiredEnd
  | Uncaught string

text \<open>What an armed host timer does when it fires.\<close>

datatype timer_action = TNothing | TPlayEvent nat int | TWatchDog nat

text \<open>
  The Player with the stores its methods read and write: the Playable objects, the
  \<open>ST.Element\<close> wrappers (each holds its \<open>dom\<close> node), the host timers, and the WatchDogs
  created by \<open>playFn\<close> (each with the event it guards and the \<open>failed\<close> variable of its
  closure). \<open>pendingFn\<close> is \<open>None\<close> for \<open>false\<close> and \<open>Some n\<close> for the number \<open>n\<close>;
  \<open>eventTimer\<close> is \<open>0\<close> when no timer is stored. \<open>active\<close> belongs to the base class
  \<open>ST.event.Driver\<close>, which is not part of the sources: it is set by \<open>start\<close>.
  \<open>hung\<close> records that a loop of the Player did not terminate.
\<close>

record world =
  events :: "nat list"
  pendingEvent :: "nat option"
  pendingFn :: "nat option"
  paused :: nat
  eventTimer :: nat
  nextId :: nat
  active :: bool
  player_timeout :: "int option"
  eventDelay :: "int option"
  typingDelay :: "int option"
  pauseForAnimations :: bool
  visualFeedback :: bool
  waitInterval :: int
  touchCount :: int
  lastGestureEndTime :: int
  objs :: "nat \<Rightarrow> Playable"
  nextObj :: nat
  els :: "nat \<Rightarrow> nat"
  nextEl :: nat
  hostq :: host
  timerAct :: "nat \<Rightarrow> timer_action"
  dogs :: "nat \<Rightarrow> nat WatchDog"
  dogFailed :: "nat \<Rightarrow> bool"
  nextDog :: nat
  gestureQueue :: bool
  gestureActive :: bool
  trace :: "obs list"
  hung :: bool

text \<open>
  A user function as the Player sees it: the number of declared parameters
  (\<open>fn.length\<close>), what it does to the Player while it runs, and how it ends.
  \<open>Throws e\<close> throws the string \<open>e\<close> (or an \<open>Error\<close> with that message when \<open>e\<close> is
  not empty); the empty string is a falsy value.
\<close>

datatype action =
    APlay "entry list"
  | AAdd "entry list"
  | AAddAt nat "entry list"
  | APause
  | AResume
  | ADone
  | AFail "string option"

datatype outcome = Returns | ReturnsThenable | Throws string

record callback_fn =
  arity :: nat
  body :: "action list"
  outcome :: outcome

datatype ready_result = RTrue | RFalse | RThrows string

text \<open>
  The environment of one turn of the host: the global options, the user functions, the
  clock (\<open>now\<close> is the first reading of a turn, \<open>later\<close> any reading after it), and the
  DOM as the collaborators report it (\<open>ST.find\<close>, \<open>isVisible\<close>, \<open>isDetached\<close>, the
  animation manager, custom \<open>ready\<close> functions, the gesture queue, the ids, tag
  names and \<open>toString\<close> results used in messages, and the focus element that
  \<open>expandType\<close> looks up). \<open>ST.find\<close> is called as
  \<open>ST.find(target, false, root, direction)\<close>; the oracle stands for that call with the
  playable's \<open>root\<close> and \<open>direction\<close>.
\<close>

record env =
  optTimeout :: "int option"
  handleExceptions :: bool
  optEventDelay :: "int option"
  optTypingDelay :: "int option"
  optVisualFeedback :: bool
  prog :: "nat \<Rightarrow> callback_fn"
  now :: int
  later :: int
  ST_find :: "target \<Rightarrow> nat option"
  isVisible :: "nat \<Rightarrow> bool"
  isDetached :: "nat \<Rightarrow> bool"
  animating :: bool
  customReady :: "nat \<Rightarrow> ready_result"
  gestureComplete :: "nat \<Rightarrow> bool"
  domId :: "nat \<Rightarrow> string"
  tagName :: "nat \<Rightarrow> string"
  funcToString :: "nat \<Rightarrow> string"
  numToString :: "int \<Rightarrow> string"
  focusEl :: "nat \<Rightarrow> nat option"

definition upd :: "nat \<Rightarrow> (Playable \<Rightarrow> Playable) \<Rightarrow> world \<Rightarrow> world" where
  "upd a f w = w\<lparr>objs := (objs w)(a := f (objs w a))\<rparr>"

definition emit :: "obs \<Rightarrow> world \<Rightarrow> world" where
  "emit ob w = w\<lparr>trace := trace w @ [ob]\<rparr>"


section \<open>\<open>ST.event.Player\<close>: queue management\<close>

definition onEnd :: "world \<Rightarrow> world" where
  "onEnd w = emit FiredEnd (if gestureQueue w then w\<lparr>gestureActive := False\<rparr> else w)"

text \<open>
  \<open>playEventSoon(event, delay)\<close>: \<open>delay == null\<close> selects \<open>waitInterval\<close>. The timer
  action remembers the event and the delay.
\<close>

definition playEventSoon :: "nat \<Rightarrow> int option \<Rightarrow> world \<Rightarrow> world" where
  "playEventSoon a dl w =
     (let d = (case dl of None \<Rightarrow> waitInterval w | Some v \<Rightarrow> v)
      in case ST_defer (hostq w) of
           (tid, h') \<Rightarrow>
             w\<lparr>hostq := h', timerAct := (timerAct w)(tid := TPlayEvent a d), eventTimer := tid\<rparr>)"

definition playNext :: "world \<Rightarrow> world" where
  "playNext w =
     (if pendingEvent w = None \<and> paused w = 0 then
        (case events w of
           [] \<Rightarrow> onEnd w
         | a # rest \<Rightarrow>
             playEventSoon a
               (Some (case delay (objs w a) of None \<Rightarrow> 0 | Some d \<Rightarrow> d))
               (upd a (\<lambda>p. p\<lparr>state := ''pending''\<rparr>)
                  (w\<lparr>events := rest, pendingEvent := Some a\<rparr>)))
      else w)"

text \<open>\<open>queue[queue.length + t]\<close>: \<open>undefined\<close> when the index is outside the array.\<close>

definition backref :: "nat list \<Rightarrow> int \<Rightarrow> target" where
  "backref queue t =
     (let i = int (length queue) + t
      in if 0 \<le> i \<and> i < int (length queue) then TPlayable (queue ! nat i) else TUndef)"

text \<open>
  The promotion \<open>events[i] = e = new ST.event.Playable(e)\<close> of an entry that is not yet
  a Playable; a falsy entry other than \<open>0\<close> is skipped (\<open>None\<close>).
\<close>

fun promote :: "entry \<Rightarrow> world \<Rightarrow> (nat \<times> world) option" where
  "promote Falsy w = None"
| "promote (EInst a) w = Some (a, w)"
| "promote e w =
     Some (nextObj w, w\<lparr>objs := (objs w)(nextObj w := new_Playable e), nextObj := Suc (nextObj w)\<rparr>)"

text \<open>
  \<open>e.target\<close>: a number becomes the playable that many places back in the queue being
  built; an object with a \<open>dom\<close> sets \<open>targetEl\<close> (itself when it is an \<open>ST.Element\<close>,
  otherwise a new wrapper of its \<open>dom\<close>). The same for \<open>relatedTarget\<close>, which writes
  the property \<open>relatedTargetEl\<close>.
\<close>

definition add_target :: "nat list \<Rightarrow> nat \<Rightarrow> world \<Rightarrow> world" where
  "add_target queue a w =
     (case target (objs w a) of
        TNum t \<Rightarrow> upd a (\<lambda>p. p\<lparr>target := backref queue t\<rparr>) w
      | TEl e \<Rightarrow> upd a (\<lambda>p. p\<lparr>targetEl := Some e\<rparr>) w
      | TExtEl d \<Rightarrow>
          upd a (\<lambda>p. p\<lparr>targetEl := Some (nextEl w)\<rparr>)
            (w\<lparr>els := (els w)(nextEl w := d), nextEl := Suc (nextEl w)\<rparr>)
      | _ \<Rightarrow> w)"

definition add_relatedTarget :: "nat list \<Rightarrow> nat \<Rightarrow> world \<Rightarrow> world" where
  "add_relatedTarget queue a w =
     (case relatedTarget (objs w a) of
        TNum t \<Rightarrow> upd a (\<lambda>p. p\<lparr>relatedTarget := backref queue t\<rparr>) w
      | TEl e \<Rightarrow> upd a (\<lambda>p. p\<lparr>relatedTargetEl := Some e\<rparr>) w
      | TExtEl d \<Rightarrow>
          upd a (\<lambda>p. p\<lparr>relatedTargetEl := Some (nextEl w)\<rparr>)
            (w\<lparr>els := (els w)(nextEl w := d), nextEl := Suc (nextEl w)\<rparr>)
      | _ \<Rightarrow> w)"

text \<open>The defaults that \<open>add\<close> fills in: \<open>delay\<close>, \<open>animation\<close> and \<open>timeout\<close>.\<close>

definition add_defaults :: "env \<Rightarrow> world \<Rightarrow> Playable \<Rightarrow> Playable" where
  "add_defaults env w p =
     (let p1 = (if delay p = None \<and> truthy_str (ptype p) \<and> ptype p \<noteq> Some ''wait''
                then p\<lparr>delay := eventDelay w\<rparr> else p);
          p2 = (if animation p1 = None then p1\<lparr>animation := Some (pauseForAnimations w)\<rparr> else p1)
      in if \<not> truthy_num (optTimeout env) then p2\<lparr>ev_timeout := Some 0\<rparr>
         else if ev_timeout p2 = None then
           (if player_timeout w = None then p2\<lparr>ev_timeout := optTimeout env\<rparr>
            else p2\<lparr>ev_timeout := player_timeout w\<rparr>)
         else p2)"

text \<open>One round of the loop of \<open>add\<close> over \<open>events[i]\<close>, on the queue being built.\<close>

definition add_entry :: "env \<Rightarrow> entry \<Rightarrow> nat list \<times> world \<Rightarrow> nat list \<times> world" where
  "add_entry env e qw =
     (case qw of (queue, w) \<Rightarrow>
        (case promote e w of
           None \<Rightarrow> (queue, w)
         | Some (a, w1) \<Rightarrow>
             (let w2 = add_target queue a w1;
                  w3 = add_relatedTarget queue a w2;
                  w4 = upd a (add_defaults env w3) w3;
                  w5 = upd a (\<lambda>p. p\<lparr>hasPlayer := True, pid := nextId w4, state := ''queued''\<rparr>) w4
              in (queue @ [a], w5\<lparr>nextId := Suc (nextId w5)\<rparr>))))"

fun add_loop :: "env \<Rightarrow> entry list \<Rightarrow> nat list \<times> world \<Rightarrow> nat list \<times> world" where
  "add_loop env [] qw = qw"
| "add_loop env (e # es) qw = add_loop env es (add_entry env e qw)"

text \<open>
  \<open>add(index, events)\<close>; \<open>idx = None\<close> is the call \<open>add(events)\<close>. Without an index the
  insertion point is the marker \<open>pendingFn\<close> when it is a number (and the marker is
  advanced by \<open>events.length\<close>), otherwise the end of the queue.
\<close>

definition insertIndex :: "nat option \<Rightarrow> world \<Rightarrow> nat" where
  "insertIndex idx w =
     (case idx of
        Some i \<Rightarrow> i
      | None \<Rightarrow> (case pendingFn w of None \<Rightarrow> length (events w) | Some k \<Rightarrow> k))"

definition advanceMarker :: "nat option \<Rightarrow> nat \<Rightarrow> world \<Rightarrow> world" where
  "advanceMarker idx count w =
     (case idx of
        Some i \<Rightarrow> w
      | None \<Rightarrow> (case pendingFn w of
                   None \<Rightarrow> w
                 | Some k \<Rightarrow> w\<lparr>pendingFn := Some (k + count)\<rparr>))"

text \<open>The end of \<open>add\<close>: \<open>playNext\<close> is called unless an event is pending.\<close>

definition playIfIdle :: "world \<Rightarrow> world" where
  "playIfIdle w = (if active w \<and> pendingEvent w = None then playNext w else w)"

definition add :: "env \<Rightarrow> nat option \<Rightarrow> entry list \<Rightarrow> world \<Rightarrow> world" where
  "add env idx entries w =
     (let len = length (events w);
          count = length entries;
          index = insertIndex idx w;
          inserting = (index < len);
          queue0 = (if inserting then (if index \<noteq> 0 then take index (events w) else [])
                    else events w)
      in case add_loop env entries (queue0, advanceMarker idx count w) of
           (queue1, w2) \<Rightarrow>
             playIfIdle
               (if inserting then w2\<lparr>events := queue1 @ drop index (events w)\<rparr>
                else w2\<lparr>events := queue1\<rparr>))"

definition cancelEventTimer :: "world \<Rightarrow> world" where
  "cancelEventTimer w =
     (if eventTimer w \<noteq> 0
      then w\<lparr>eventTimer := 0, hostq := ST_deferCancel (eventTimer w) (hostq w)\<rparr> else w)"

text \<open>\<open>cleanup\<close> (the gesture indicators it hides are visual feedback only).\<close>

definition cleanup :: "world \<Rightarrow> world" where
  "cleanup w = (cancelEventTimer (w\<lparr>pendingEvent := None, pendingFn := None\<rparr>))\<lparr>events := []\<rparr>"

text \<open>\<open>pause\<close>: \<open>!me.pendingFn\<close> holds when \<open>pendingFn\<close> is \<open>false\<close> and when it is \<open>0\<close>.\<close>

definition pause :: "world \<Rightarrow> world" where
  "pause w =
     (let w1 = cancelEventTimer (w\<lparr>paused := Suc (paused w)\<rparr>)
      in case pendingEvent w1 of
           None \<Rightarrow> w1
         | Some a \<Rightarrow>
             if pendingFn w1 = None \<or> pendingFn w1 = Some 0
             then upd a (\<lambda>p. p\<lparr>state := ''queued''\<rparr>) (w1\<lparr>events := a # events w1\<rparr>)
             else w1)"

definition resume :: "world \<Rightarrow> world" where
  "resume w =
     (if paused w \<noteq> 0 then
        (let w1 = w\<lparr>paused := paused w - 1\<rparr>
         in if paused w1 = 0 then playNext w1 else w1)
      else w)"

text \<open>
  Modelled from the spec: \<open>start\<close> belongs to \<open>ST.event.Driver\<close>, which is not part of the
  sources; \<open>ST.play\<close> says of it "does nothing if already started", and the Player's
  \<open>onStart\<close> hook calls \<open>playNext\<close>.
\<close>

definition start :: "world \<Rightarrow> world" where
  "start w = (if active w then w else playNext (w\<lparr>active := True\<rparr>))"

text \<open>
  \<open>ST.play(events)\<close> (serve/orion.js) without the optional \<open>done\<close>: the tail function is
  pushed behind the events before they are added.
\<close>

definition ST_play :: "env \<Rightarrow> entry list \<Rightarrow> world \<Rightarrow> world" where
  "ST_play env entries w =
     start ((add env None (entries @ [EFn TailFn]) w)
              \<lparr>eventDelay := optEventDelay env, typingDelay := optTypingDelay env,
               visualFeedback := optVisualFeedback env\<rparr>)"

definition fail :: "string \<Rightarrow> world \<Rightarrow> world" where
  "fail message w =
     (if pendingEvent w \<noteq> None \<or> events w \<noteq> []
      then onEnd (emit (FiredError message) (cleanup w)) else w)"

definition doError :: "string \<Rightarrow> world \<Rightarrow> world" where
  "doError err w = fail (''Failed with error \"'' @ err @ ''\"'') w"


section \<open>\<open>ST.event.Playable\<close>: readiness\<close>

text \<open>
  \<open>setWaiting(waitingFor, waitingState)\<close> returns \<open>!waitingFor\<close>: the two ways it is
  called, with \<open>false\<close> and with a tag.
\<close>

definition not_waiting :: "nat \<Rightarrow> world \<Rightarrow> bool \<times> world" where
  "not_waiting a w = (True, upd a (\<lambda>p. p\<lparr>waitingFor := None, waitingState := None\<rparr>) w)"

definition waiting :: "nat \<Rightarrow> string \<Rightarrow> string \<Rightarrow> world \<Rightarrow> bool \<times> world" where
  "waiting a tag st w =
     (tag = [], upd a (\<lambda>p. p\<lparr>waitingFor := Some tag, waitingState := Some st\<rparr>) w)"

definition animationsDone :: "env \<Rightarrow> nat \<Rightarrow> world \<Rightarrow> bool \<times> world" where
  "animationsDone env a w =
     (if animation (objs w a) = Some True \<and> animating env
      then waiting a ''animations'' ''complete'' w else not_waiting a w)"

text \<open>The visibility check at the end of \<open>targetReady\<close>.\<close>

definition visibleReady ::
  "env \<Rightarrow> string \<Rightarrow> nat \<Rightarrow> nat option \<Rightarrow> world \<Rightarrow> bool \<times> world" where
  "visibleReady env name a el w =
     (case el of
        None \<Rightarrow> not_waiting a w
      | Some e \<Rightarrow>
          if visible (objs w a) = NullV then not_waiting a w
          else if visible (objs w a) = No then
            (if isVisible env (els w e) then waiting a name ''not visible'' w
             else not_waiting a w)
          else if \<not> isVisible env (els w e) then waiting a name ''visible'' w
          else not_waiting a w)"

definition set_el :: "bool \<Rightarrow> nat \<Rightarrow> nat option \<Rightarrow> world \<Rightarrow> world" where
  "set_el rel a el w =
     (if rel then upd a (\<lambda>p. p\<lparr>relatedEl := el\<rparr>) w else upd a (\<lambda>p. p\<lparr>targetEl := el\<rparr>) w)"

definition get_el :: "bool \<Rightarrow> Playable \<Rightarrow> nat option" where
  "get_el rel p = (if rel then relatedEl p else targetEl p)"

text \<open>
  \<open>targetReady(name)\<close>; \<open>rel\<close> is the call \<open>targetReady(true)\<close> for \<open>relatedTarget\<close>,
  whose element is cached in \<open>relatedEl\<close> (\<open>_elNames\<close>).
\<close>

definition targetReady :: "env \<Rightarrow> bool \<Rightarrow> nat \<Rightarrow> world \<Rightarrow> bool \<times> world" where
  "targetReady env rel a w =
     (let p = objs w a;
          name = (if rel then ''relatedTarget'' else ''target'');
          tgt = (if rel then relatedTarget p else target p);
          absent = (available p = No)
      in if \<not> truthy_target tgt then not_waiting a w
         else
           (let el1 = (case get_el rel p of
                         Some e \<Rightarrow> Some e
                       | None \<Rightarrow> (case tgt of
                                    TPlayable b \<Rightarrow> get_el rel (objs w b)
                                  | _ \<Rightarrow> None));
                w1 = (case get_el rel p of
                        Some e \<Rightarrow> w
                      | None \<Rightarrow> (case tgt of
                                   TPlayable b \<Rightarrow> set_el rel a el1 w
                                 | _ \<Rightarrow> w))
            in case el1 of
                 Some e \<Rightarrow>
                   if absent then
                     (if isDetached env (els w1 e) then waiting a name ''absent'' w1
                      else not_waiting a w1)
                   else
                     (let w2 = (case tgt of
                                  TStr s \<Rightarrow>
                                    (case ST_find env tgt of
                                       Some d \<Rightarrow>
                                         if els w1 e \<noteq> d then w1\<lparr>els := (els w1)(e := d)\<rparr>
                                         else w1
                                     | None \<Rightarrow> w1)
                                | _ \<Rightarrow> w1)
                      in visibleReady env name a (Some e) w2)
               | None \<Rightarrow>
                   (case (case tgt of TPlayable b \<Rightarrow> None | _ \<Rightarrow> ST_find env tgt) of
                      Some d \<Rightarrow>
                        (let e = nextEl w1;
                             w2 = set_el rel a (Some e)
                                    (w1\<lparr>els := (els w1)(e := d), nextEl := Suc e\<rparr>)
                         in if absent then waiting a name ''absent'' w2
                            else visibleReady env name a (Some e) w2)
                    | None \<Rightarrow>
                        if absent then not_waiting a w1
                        else if available p \<noteq> NullV then waiting a name ''available'' w1
                        else visibleReady env name a None w1)))"

text \<open>The prototype's \<open>ready\<close>: the conjunction stops at the first check that fails.\<close>

definition ready_default :: "env \<Rightarrow> nat \<Rightarrow> world \<Rightarrow> bool \<times> world" where
  "ready_default env a w =
     (case animationsDone env a w of
        (r1, w1) \<Rightarrow>
          if \<not> r1 then (False, w1)
          else (case targetReady env False a w1 of
                  (r2, w2) \<Rightarrow> if \<not> r2 then (False, w2) else targetReady env True a w2))"

text \<open>
  \<open>isTapGestureReady\<close>: \<open>true\<close> without a gesture queue, otherwise
  \<open>queue.complete(this.target.id, 'tap')\<close>; reading \<open>id\<close> of an undefined target throws.
\<close>

definition isTapGestureReady :: "env \<Rightarrow> nat \<Rightarrow> world \<Rightarrow> ready_result" where
  "isTapGestureReady env a w =
     (if \<not> gestureQueue w then RTrue
      else (case target (objs w a) of
              TUndef \<Rightarrow> RThrows ''TypeError''
            | TPlayable b \<Rightarrow> if gestureComplete env (pid (objs w b)) then RTrue else RFalse
            | _ \<Rightarrow> if gestureComplete env 0 then RTrue else RFalse))"

definition call_ready :: "env \<Rightarrow> nat \<Rightarrow> world \<Rightarrow> ready_result \<times> world" where
  "call_ready env a w =
     (case ready (objs w a) of
        ReadyDefault \<Rightarrow>
          (case ready_default env a w of (r, w1) \<Rightarrow> (if r then RTrue else RFalse, w1))
      | ReadyTapGesture \<Rightarrow> (isTapGestureReady env a w, w)
      | ReadyCustom k \<Rightarrow> (customReady env k, w))"

text \<open>
  \<open>isReady\<close>: with \<open>handleExceptions\<close> an exception of \<open>ready\<close> goes to \<open>doError\<close> and the
  result is \<open>false\<close>; without, it propagates (\<open>Inl\<close>).
\<close>

definition isReady :: "env \<Rightarrow> nat \<Rightarrow> world \<Rightarrow> (string + bool) \<times> world" where
  "isReady env a w =
     (case call_ready env a w of
        (RTrue, w1) \<Rightarrow> (Inr True, w1)
      | (RFalse, w1) \<Rightarrow> (Inr False, w1)
      | (RThrows e, w1) \<Rightarrow>
          if handleExceptions env then (Inr False, doError e w1) else (Inl e, w1))"


section \<open>\<open>ST.event.Player\<close>: timeouts and failures\<close>

text \<open>
  The loop of \<open>doTimeout\<close> that follows \<open>target\<close> (or \<open>relatedTarget\<close>) from playable to
  playable until it finds the locator, giving the DOM node or the selector text of the
  message. The loop runs as long as the locator is a playable; \<open>n\<close> bounds the number
  of rounds, and \<open>None\<close> means the bound was reached.
\<close>

fun locate ::
  "env \<Rightarrow> world \<Rightarrow> bool \<Rightarrow> nat \<Rightarrow> nat \<Rightarrow> (nat option \<times> string option) option" where
  "locate env w rel 0 src = None"
| "locate env w rel (Suc n) src =
     (let p = objs w src;
          loc = (if rel then relatedTarget p else target p)
      in if \<not> truthy_target loc then
           Some (map_option (els w) (if rel then relatedTargetEl p else targetEl p), None)
         else
           (case loc of
              TPlayable b \<Rightarrow> locate env w rel n b
            | TEl e \<Rightarrow> Some (Some (els w e), None)
            | TExtEl d \<Rightarrow> Some (Some d, None)
            | TNode d \<Rightarrow> Some (Some d, None)
            | TStr l \<Rightarrow> Some (None, Some l)
            | TFunc k \<Rightarrow> Some (None, Some (funcToString env k))
            | TNum i \<Rightarrow> Some (None, Some (numToString env i))
            | TUndef \<Rightarrow> Some (None, None)))"

definition waitingLabel :: "env \<Rightarrow> world \<Rightarrow> nat \<Rightarrow> nat \<Rightarrow> string option" where
  "waitingLabel env w n a =
     (let p = objs w a;
          s = (if truthy_str (waitingFor p) then the (waitingFor p) else ''event'')
      in if s = ''target'' \<or> s = ''relatedTarget'' then
           (case locate env w (s = ''relatedTarget'') n a of
              None \<Rightarrow> None
            | Some (nd, sel0) \<Rightarrow>
                (let sel = (case nd of
                              Some d \<Rightarrow> if domId env d \<noteq> [] then ''#'' @ domId env d
                                        else tagName env d
                            | None \<Rightarrow> (case sel0 of None \<Rightarrow> [] | Some l \<Rightarrow> l))
                 in Some (if sel \<noteq> [] then s @ '' ('' @ sel @ '')'' else s)))
         else Some s)"

definition timeoutMessage :: "Playable \<Rightarrow> string \<Rightarrow> string" where
  "timeoutMessage p s =
     (let toBe = (if truthy_str (waitingState p) then the (waitingState p) else ''ready'');
          toBe' = (if truthy_str (ptype p) then toBe @ '' for '' @ the (ptype p) else toBe)
      in ''Timeout waiting for '' @ s @ '' to be '' @ toBe')"

text \<open>
  \<open>doTimeout\<close>. The walk is given one round per object of the store, which is enough
  whenever the chain of targets does not run in a circle; on a circle the source loops
  for ever, which is recorded in \<open>hung\<close>.
\<close>

definition doTimeout :: "env \<Rightarrow> nat \<Rightarrow> world \<Rightarrow> world" where
  "doTimeout env a w =
     (if state (objs w a) \<noteq> ''pending'' \<and> state (objs w a) \<noteq> ''playing'' then w
      else
        (let w1 = upd a (\<lambda>p. p\<lparr>state := ''done''\<rparr>) w
         in case waitingLabel env w1 (Suc (nextObj w1)) a of
              None \<Rightarrow> w1\<lparr>hung := True\<rparr>
            | Some s \<Rightarrow> fail (timeoutMessage (objs w1 a) s) w1))"


section \<open>\<open>ST.event.Player\<close>: playing\<close>

text \<open>
  The callback that \<open>playFn\<close> gives to its WatchDog; \<open>d\<close> is the WatchDog, whose
  \<open>failed\<close> variable the closure reads, and \<open>a\<close> the event.
\<close>

definition dog_callback :: "env \<Rightarrow> nat \<Rightarrow> nat \<Rightarrow> wd_error \<Rightarrow> world \<Rightarrow> world" where
  "dog_callback env d a err w =
     (if dogFailed w d then w
      else if err \<noteq> Null then doTimeout env a w
      else playNext (upd a (\<lambda>p. p\<lparr>state := ''done''\<rparr>) (w\<lparr>pendingEvent := None\<rparr>)))"

text \<open>An operation on WatchDog \<open>d\<close> of the store, followed by the callback if it fired.\<close>

definition dog_apply ::
  "env \<Rightarrow> nat \<Rightarrow>
   (nat WatchDog \<times> host \<Rightarrow> (nat WatchDog \<times> host) \<times> (nat \<times> wd_error) option) \<Rightarrow>
   world \<Rightarrow> world" where
  "dog_apply env d f w =
     (case f (dogs w d, hostq w) of
        ((wd', h'), r) \<Rightarrow>
          (let w1 = w\<lparr>dogs := (dogs w)(d := wd'), hostq := h'\<rparr>
           in case r of None \<Rightarrow> w1 | Some (a, e) \<Rightarrow> dog_callback env d a e w1))"

text \<open>The tail function of \<open>ST.play\<close> declares no parameter and touches only listeners.\<close>

definition script :: "env \<Rightarrow> fnref \<Rightarrow> callback_fn" where
  "script env f =
     (case f of
        UserFn k \<Rightarrow> prog env k
      | TailFn \<Rightarrow> \<lparr>arity = 0, body = [], outcome = Returns\<rparr>)"

fun run_action :: "env \<Rightarrow> nat \<Rightarrow> action \<Rightarrow> world \<Rightarrow> world" where
  "run_action env d (APlay es) w = ST_play env es w"
| "run_action env d (AAdd es) w = add env None es w"
| "run_action env d (AAddAt i es) w = add env (Some i) es w"
| "run_action env d APause w = pause w"
| "run_action env d AResume w = resume w"
| "run_action env d ADone w = dog_apply env d wd_done w"
| "run_action env d (AFail e) w = dog_apply env d (wd_fail e) w"

fun run_body :: "env \<Rightarrow> nat \<Rightarrow> action list \<Rightarrow> world \<Rightarrow> world" where
  "run_body env d [] w = w"
| "run_body env d (act # acts) w =
     (if hung w then w else run_body env d acts (run_action env d act w))"

text \<open>
  \<open>playFn(event)\<close> in three parts. Before the call of \<open>fn\<close>:
  \<open>new ST.WatchDog(callback, event.timeout)\<close> (stored under the next free WatchDog
  address) and \<open>me.pendingFn = 0\<close>; the call is recorded in the trace.
\<close>

definition enterFn :: "env \<Rightarrow> nat \<Rightarrow> fnref \<Rightarrow> world \<Rightarrow> world" where
  "enterFn env a f w =
     (let d = nextDog w
      in case new_WatchDog (optTimeout env) a False (ev_timeout (objs w a)) (hostq w) of
           (wd, h1) \<Rightarrow>
             emit (Called a f)
               (w\<lparr>dogs := (dogs w)(d := wd),
                  dogFailed := (dogFailed w)(d := False),
                  nextDog := Suc d,
                  hostq := h1,
                  timerAct := (case timer wd of
                                 Some (CancelFn tid ms) \<Rightarrow> (timerAct w)(tid := TWatchDog d)
                               | _ \<Rightarrow> timerAct w),
                  pendingFn := Some 0\<rparr>))"

text \<open>
  After the call: an exception goes to \<open>doError\<close> (after \<open>failed = e\<close>, which the
  WatchDog's callback tests for truthiness) or leaves the Player; a return clears the
  marker and \<open>pendingEvent\<close>, and \<open>done\<close> is called at once unless the result is a
  thenable or \<open>fn\<close> declares a parameter.
\<close>

definition leaveFn :: "env \<Rightarrow> nat \<Rightarrow> fnref \<Rightarrow> world \<Rightarrow> world" where
  "leaveFn env d f w =
     (if hung w then w
      else
        (case outcome (script env f) of
           Throws e \<Rightarrow>
             if handleExceptions env
             then doError e (w\<lparr>dogFailed := (dogFailed w)(d := (e \<noteq> []))\<rparr>)
             else emit (Uncaught e) w
         | oc \<Rightarrow>
             (let w4 = w\<lparr>pendingFn := None, pendingEvent := None\<rparr>
              in if oc = ReturnsThenable then w4
                 else if arity (script env f) = 0 then dog_apply env d wd_done w4
                 else w4)))"

definition playFn :: "env \<Rightarrow> nat \<Rightarrow> fnref \<Rightarrow> world \<Rightarrow> world" where
  "playFn env a f w =
     leaveFn env (nextDog w) f
       (run_body env (nextDog w) (body (script env f)) (enterFn env a f w))"

text \<open>
  Modelled from the spec: \<open>ST.applyIf\<close> is not part of the sources; the spec says of its
  use in \<open>expandTap\<close> that the modifier keys (meta/shift/ctrl/button/detail) are copied
  onto every sub-event unless already present.
\<close>

definition applyIf_modifiers :: "Playable \<Rightarrow> Playable \<Rightarrow> Playable" where
  "applyIf_modifiers e opts =
     e\<lparr>metaKey := (case metaKey e of None \<Rightarrow> metaKey opts | Some v \<Rightarrow> Some v),
       shiftKey := (case shiftKey e of None \<Rightarrow> shiftKey opts | Some v \<Rightarrow> Some v),
       ctrlKey := (case ctrlKey e of None \<Rightarrow> ctrlKey opts | Some v \<Rightarrow> Some v),
       button := (case button e of None \<Rightarrow> button opts | Some v \<Rightarrow> Some v),
       detail := (case detail e of None \<Rightarrow> detail opts | Some v \<Rightarrow> Some v)\<rparr>"

text \<open>The four configs that \<open>expandTap\<close> builds from the tap event \<open>p\<close>.\<close>

definition tapEvents :: "Playable \<Rightarrow> Playable list" where
  "tapEvents p =
     map (\<lambda>e. applyIf_modifiers e p)
       [Playable0\<lparr>ptype := Some ''pointerdown'', target := target p, delay := delay p,
                  ev_x := ev_x p, ev_y := ev_y p\<rparr>,
        Playable0\<lparr>ptype := Some ''pointerup'', target := TNum (- 1), delay := Some 0,
                  ev_x := ev_x p, ev_y := ev_y p\<rparr>,
        Playable0\<lparr>ptype := Some ''click'', target := TNum (- 2), delay := Some 0,
                  ev_x := ev_x p, ev_y := ev_y p\<rparr>,
        Playable0\<lparr>ptype := Some ''wait'', target := TNum (- 2), delay := Some 0,
                  ev_x := ev_x p, ev_y := ev_y p, ready := ReadyTapGesture\<rparr>]"

definition expandTap :: "env \<Rightarrow> nat \<Rightarrow> world \<Rightarrow> world" where
  "expandTap env a w =
     add env (Some 0) (map ECfg (tapEvents (objs w a)))
       (if gestureQueue w then w\<lparr>gestureActive := True\<rparr> else w)"

text \<open>The \<open>keydown\<close>/\<open>keyup\<close> pair of one character of the text.\<close>

definition keyPair :: "target \<Rightarrow> int option \<Rightarrow> string \<Rightarrow> Playable list" where
  "keyPair tgt dl k =
     [Playable0\<lparr>ptype := Some ''keydown'', target := tgt, key := Some k, delay := dl\<rparr>,
      Playable0\<lparr>ptype := Some ''keyup'', target := tgt, key := Some k, delay := Some 0\<rparr>]"

text \<open>
  \<open>expandType\<close>. For a string target the focus element of the component is looked up
  through \<open>targetEl\<close>, which throws when \<open>targetEl\<close> is undefined (\<open>Inl\<close>). Without text
  and key the event is skipped with a call of \<open>playNext\<close>.
\<close>

definition expandType :: "env \<Rightarrow> nat \<Rightarrow> world \<Rightarrow> string + world" where
  "expandType env a w =
     (let p = objs w a
      in case (case target p of
                 TStr l \<Rightarrow>
                   (case targetEl p of
                      None \<Rightarrow> Inl ''TypeError''
                    | Some e \<Rightarrow>
                        (case focusEl env (els w e) of
                           None \<Rightarrow> Inr (Some e, w)
                         | Some d \<Rightarrow>
                             Inr (Some (nextEl w),
                                  w\<lparr>els := (els w)(nextEl w := d), nextEl := Suc (nextEl w)\<rparr>)))
               | _ \<Rightarrow> Inr (targetEl p, w)) of
           Inl e \<Rightarrow> Inl e
         | Inr (el, w1) \<Rightarrow>
             (let tgt = (case el of None \<Rightarrow> TUndef | Some e \<Rightarrow> TEl e);
                  evs = (if truthy_str (etext p) then
                           concat (map (\<lambda>c. keyPair tgt (typingDelay w1) [c]) (the (etext p)))
                         else if truthy_str (key p) then
                           [Playable0\<lparr>ptype := Some ''keydown'', target := tgt, key := key p\<rparr>,
                            Playable0\<lparr>ptype := Some ''keyup'', target := tgt, key := key p,
                                       delay := Some 0\<rparr>]
                         else [])
              in case evs of
                   [] \<Rightarrow> Inr (playNext w1)
                 | e0 # rest \<Rightarrow>
                     (let e1 = e0\<lparr>delay := (if truthy_num (delay p) then delay p
                                               else eventDelay w1)\<rparr>;
                          e2 = (if caret p \<noteq> None then e1\<lparr>caret := caret p\<rparr> else e1)
                      in Inr (add env (Some 0) (map ECfg (e2 # rest)) w1))))"

definition gestureStartEvents :: "string list" where
  "gestureStartEvents = [''mousedown'', ''pointerdown'', ''touchstart'']"

definition gestureEndEvents :: "string list" where
  "gestureEndEvents = [''mouseup'', ''pointerup'', ''touchend'', ''pointercancel'', ''touchcancel'']"

text \<open>
  The call of the Injector with the bookkeeping of touches that follows it. The pointer
  and gesture indicators shown and hidden there are visual feedback only.
\<close>

definition injectEvent :: "env \<Rightarrow> nat \<Rightarrow> string \<Rightarrow> world \<Rightarrow> world" where
  "injectEvent env a ty w =
     (let w1 = emit (Injected a ty (targetEl (objs w a)) (relatedEl (objs w a))) w
      in if ty \<in> set gestureStartEvents then w1\<lparr>touchCount := touchCount w1 + 1\<rparr>
         else if ty \<in> set gestureEndEvents
         then w1\<lparr>touchCount := touchCount w1 - 1, lastGestureEndTime := later env\<rparr>
         else w1)"

definition finishEvent :: "nat \<Rightarrow> world \<Rightarrow> world" where
  "finishEvent a w = playNext (upd a (\<lambda>p. p\<lparr>state := ''done''\<rparr>) w)"

text \<open>
  \<open>playEvent(event)\<close>. \<open>waitStartTime\<close> and \<open>timeout\<close> are read before \<open>isReady\<close> is
  called; \<open>now\<close> is the clock at entry, the stamp \<open>event.waitStartTime = +new Date()\<close>
  reads the clock again.
\<close>

definition playEvent :: "env \<Rightarrow> nat \<Rightarrow> world \<Rightarrow> world" where
  "playEvent env a w =
     (let waitStart = waitStartTime (objs w a);
          tmo = ev_timeout (objs w a)
      in case isReady env a w of
           (Inl e, w1) \<Rightarrow> emit (Uncaught e) w1
         | (Inr False, w1) \<Rightarrow>
             if waitStart \<noteq> 0 \<and> truthy_num tmo \<and> now env - waitStart \<ge> the tmo
             then doTimeout env a w1
             else playEventSoon a None
                    (if waitStart = 0 then upd a (\<lambda>p. p\<lparr>waitStartTime := later env\<rparr>) w1
                     else w1)
         | (Inr True, w1) \<Rightarrow>
             (let w2 = upd a (\<lambda>p. p\<lparr>state := ''playing''\<rparr>) w1
              in case fn (objs w2 a) of
                   Some f \<Rightarrow> playFn env a f w2
                 | None \<Rightarrow>
                     (let w3 = w2\<lparr>pendingEvent := None\<rparr>;
                          ty = ptype (objs w3 a)
                      in if ty = Some ''tap'' then finishEvent a (expandTap env a w3)
                         else if ty = Some ''type'' then
                           (case expandType env a w3 of
                              Inl e \<Rightarrow> emit (Uncaught e) w3
                            | Inr w4 \<Rightarrow> finishEvent a w4)
                         else if truthy_str ty \<and> ty \<noteq> Some ''wait''
                         then finishEvent a (injectEvent env a (the ty) w3)
                         else finishEvent a w3)))"


section \<open>The host drives the Player\<close>

text \<open>
  One turn of the host: an armed timer fires (the event timer runs
  \<open>me.eventTimer = 0; me.playEvent(event)\<close>, a WatchDog timer runs \<open>onTick\<close>), or user
  code that kept the \<open>done\<close> function of a callback playable calls it or its \<open>fail\<close>,
  or outside code calls \<open>ST.play\<close>, \<open>pause\<close> or \<open>resume\<close>. Nothing runs after a loop that
  does not terminate.
\<close>

datatype host_event =
    TimerFires nat
  | UserDone nat
  | UserFail nat "string option"
  | UserPlay "entry list"
  | UserPause
  | UserResume

fun turn :: "env \<Rightarrow> host_event \<Rightarrow> world \<Rightarrow> world" where
  "turn env (TimerFires tid) w =
     (if tid \<in> set (armed (hostq w)) then
        (let w1 = w\<lparr>hostq := ST_deferCancel tid (hostq w)\<rparr>
         in case timerAct w tid of
              TPlayEvent a d \<Rightarrow> playEvent env a (w1\<lparr>eventTimer := 0\<rparr>)
            | TWatchDog d \<Rightarrow> dog_apply env d wd_onTick w1
            | TNothing \<Rightarrow> w1)
      else w)"
| "turn env (UserDone d) w = dog_apply env d wd_done w"
| "turn env (UserFail d e) w = dog_apply env d (wd_fail e) w"
| "turn env (UserPlay es) w = ST_play env es w"
| "turn env UserPause w = pause w"
| "turn env UserResume w = resume w"

definition step :: "env \<Rightarrow> host_event \<Rightarrow> world \<Rightarrow> world" where
  "step env ev w = (if hung w then w else turn env ev w)"


text \<open>
  The Player after its constructor (\<open>waitInterval\<close> is \<open>10\<close> outside old Internet
  Explorer); \<open>gq\<close> tells whether \<open>setupGesturePublisher\<close> installed a gesture queue.
\<close>

definition new_Player :: "bool \<Rightarrow> world" where
  "new_Player gq =
     \<lparr>events = [], pendingEvent = None, pendingFn = None, paused = 0, eventTimer = 0,
      nextId = 1, active = False, player_timeout = None, eventDelay = None,
      typingDelay = None, pauseForAnimations = True, visualFeedback = True,
      waitInterval = 10, touchCount = 0, lastGestureEndTime = 0,
      objs = (\<lambda>a. Playable0), nextObj = 0, els = (\<lambda>e. 0), nextEl = 0, hostq = host0,
      timerAct = (\<lambda>t. TNothing), dogs = (\<lambda>d. \<lparr>callback = None, hasScope = False,
      timer = None, timeout = None\<rparr>), dogFailed = (\<lambda>d. False), nextDog = 0,
      gestureQueue = gq, gestureActive = False, trace = [], hung = False\<rparr>"


section \<open>Selection validator (serve/future/Component.js)\<close>

text \<open>
  The data store of the component is the widget library's: its methods are taken as
  given. \<open>getRange\<close> is called without arguments and with \<open>(start, end)\<close>, either of
  which may be undefined; \<open>each\<close> visits \<open>eachItems\<close> in order; \<open>get\<close> reads a property
  of a record (\<open>None\<close> for \<open>undefined\<close>).
\<close>

record ('r, 'i, 'v) store =
  getById :: "'i \<Rightarrow> 'r option"
  getAt :: "int \<Rightarrow> 'r option"
  getRange :: "int option \<Rightarrow> int option \<Rightarrow> 'r list"
  eachItems :: "'r list"
  get :: "'r \<Rightarrow> string option \<Rightarrow> 'v option"

text \<open>The config object of \<open>selectBy\<close> / \<open>deselectBy\<close> and of the \<open>selected\<close> states.\<close>

record ('i, 'v) sel_config =
  mode :: string
  stype :: string
  ids :: "'i list option"
  indexes :: "int list option"
  range_start :: "int option"
  range_end :: "int option"
  propertyName :: "string option"
  propertyValue :: "'v option"

text \<open>The loop of \<open>_getRecords\<close> for the types \<open>'id'\<close> and \<open>'index'\<close>.\<close>

fun lookupRecords :: "('k \<Rightarrow> 'r option) \<Rightarrow> 'k list \<Rightarrow> 'r list" where
  "lookupRecords f [] = []"
| "lookupRecords f (k # ks) =
     (case f k of None \<Rightarrow> lookupRecords f ks | Some r \<Rightarrow> r # lookupRecords f ks)"

text \<open>
  \<open>_getRecords(options)\<close>. With type \<open>'id'\<close> (or \<open>'index'\<close>) and no \<open>ids\<close> (\<open>indexes\<close>)
  the read of \<open>items.length\<close> throws.
\<close>

definition getRecords ::
  "('r, 'i, 'v) store \<Rightarrow> ('i, 'v) sel_config \<Rightarrow> string + 'r list" where
  "getRecords st options =
     (if stype options = ''all'' then Inr (getRange st None None)
      else if stype options = ''id'' then
        (case ids options of
           None \<Rightarrow> Inl ''TypeError''
         | Some items \<Rightarrow> Inr (lookupRecords (getById st) items))
      else if stype options = ''index'' then
        (case indexes options of
           None \<Rightarrow> Inl ''TypeError''
         | Some items \<Rightarrow> Inr (lookupRecords (getAt st) items))
      else if stype options = ''range'' then
        Inr (getRange st (range_start options) (range_end options))
      else if stype options = ''query'' then
        Inr (filter (\<lambda>r. get st r (propertyName options) \<noteq> None
                         \<and> get st r (propertyName options) = propertyValue options)
               (eachItems st))
      else Inr [])"

text \<open>
  \<open>(config.ids && config.ids.length) || (config.indexes && config.indexes.length)\<close>: an
  array is truthy, the length \<open>0\<close> is falsy, so an empty \<open>ids\<close> falls through to
  \<open>indexes\<close>. The result is a number or \<open>undefined\<close> (\<open>None\<close>).
\<close>

definition expectedLength :: "('i, 'v) sel_config \<Rightarrow> nat option" where
  "expectedLength config =
     (case ids config of
        Some l \<Rightarrow> if length l \<noteq> 0 then Some (length l) else map_option length (indexes config)
      | None \<Rightarrow> map_option length (indexes config))"

text \<open>The counting loop: \<open>selections.indexOf(records[i]) !== -1\<close>.\<close>

fun matchCount :: "'r list \<Rightarrow> 'r list \<Rightarrow> nat" where
  "matchCount selections [] = 0"
| "matchCount selections (r # rs) =
     (if r \<in> set selections then Suc (matchCount selections rs) else matchCount selections rs)"

text \<open>
  \<open>_validateSelections(config)\<close>, given the store and the current selections of the
  component. \<open>ST.isNumber\<close> is not part of the sources; it is applied to a value that
  is an array length or \<open>undefined\<close>, and holds of the former.
\<close>

definition validateSelections ::
  "('r, 'i, 'v) store \<Rightarrow> 'r list \<Rightarrow> ('i, 'v) sel_config \<Rightarrow> string + bool" where
  "validateSelections st selections config =
     (case getRecords st config of
        Inl e \<Rightarrow> Inl e
      | Inr records \<Rightarrow>
          (let useLength = (mode config = ''select'');
               len = length records
           in case expectedLength config of
                Some n \<Rightarrow>
                  if n \<noteq> len then Inr False
                  else Inr (matchCount selections records = (if useLength then len else 0))
              | None \<Rightarrow> Inr (matchCount selections records = (if useLength then len else 0))))"

section \<open>\<open>ST.Block\<close> (serve/orion.js)\<close>

text \<open>
  What a user function throws: an error (or any other truthy value), an error marked
  \<open>specDisabled\<close>, or a falsy value (\<open>''\<close>, \<open>0\<close>, \<open>null\<close>, \<open>undefined\<close>). What
  \<open>failure\<close> reports: a thrown error or the argument a WatchDog gave to \<open>onWatchDog\<close>.
  A result passed to \<open>ST.status.addResult\<close> is a failure or a disabled spec.
\<close>

datatype err = Err string | SpecDisabled string | ErrFalsy

datatype reported = Thrown err | Reported wd_error

datatype result = Failed reported | Disabled string

text \<open>The truthiness of \<open>me.error\<close> and of the argument of \<open>failure\<close>.\<close>

definition truthy_err :: "err option \<Rightarrow> bool" where
  "truthy_err x = (case x of None \<Rightarrow> False | Some ErrFalsy \<Rightarrow> False | Some e \<Rightarrow> True)"

definition truthy_reported :: "reported option \<Rightarrow> bool" where
  "truthy_reported x =
     (case x of
        None \<Rightarrow> False
      | Some (Thrown e) \<Rightarrow> truthy_err (Some e)
      | Some (Reported r) \<Rightarrow> r \<noteq> Null)"

text \<open>
  A Block with what it acts on. \<open>hasDone\<close> tells whether \<open>_done\<close> holds the framework's
  callback; \<open>hasWatchDog\<close> whether \<open>me.watchDog\<close> is set, while \<open>dogObj\<close> is the WatchDog
  object itself, which the \<open>done\<close> function handed to the user keeps alive;
  \<open>subscribed\<close> is the single-shot listener on the Player's \<open>end\<close> event; \<open>stopped\<close>
  counts the calls of \<open>player.stop()\<close>, \<open>doneCalls\<close> the calls of the framework's
  callback; \<open>propagated\<close> is an exception that left \<open>invoke\<close>.
\<close>

record block =
  isAsync :: bool
  blockTimeout :: "int option"
  hasDone :: bool
  calling :: bool
  blockPlaying :: bool
  blockError :: "err option"
  hasWatchDog :: bool
  dogObj :: "unit WatchDog"
  blockHost :: host
  subscribed :: bool
  stopped :: nat
  results :: "result list"
  doneCalls :: nat
  propagated :: "err option"

record block_env =
  blockOptTimeout :: "int option"
  blockHandleExceptions :: bool
  recorder :: bool

text \<open>\<open>ST.isPlayingEvents()\<close>: \<open>player && player.events.length\<close>, used as a condition.\<close>

definition ST_isPlayingEvents :: "world option \<Rightarrow> bool" where
  "ST_isPlayingEvents player = (case player of None \<Rightarrow> False | Some w \<Rightarrow> events w \<noteq> [])"

text \<open>
  \<open>failure(ex)\<close>: nothing is reported for a falsy \<open>ex\<close> or once \<open>_done\<close> is cleared.
\<close>

definition failure :: "reported option \<Rightarrow> block \<Rightarrow> block" where
  "failure ex b =
     (case ex of
        None \<Rightarrow> b
      | Some f \<Rightarrow>
          if truthy_reported ex \<and> hasDone b then
            (case f of
               Thrown (SpecDisabled m) \<Rightarrow> b\<lparr>results := results b @ [Disabled m]\<rparr>
             | _ \<Rightarrow> b\<lparr>results := results b @ [Failed f]\<rparr>)
          else b)"

text \<open>
  \<open>finish()\<close>, as every caller in the class calls it: without an argument, so that
  \<open>me.error || ex\<close> is \<open>me.error\<close> when that is truthy and \<open>undefined\<close> otherwise.
\<close>

definition finish :: "block_env \<Rightarrow> block \<Rightarrow> block" where
  "finish env b =
     (if hasDone b then
        (let b1 = failure (if truthy_err (blockError b)
                           then map_option Thrown (blockError b) else None) b;
             b2 = b1\<lparr>hasDone := False\<rparr>;
             b3 = (if hasWatchDog b2 then
                     (case wd_destroy (dogObj b2, blockHost b2) of
                        (wd, h) \<Rightarrow> b2\<lparr>dogObj := wd, blockHost := h, hasWatchDog := False\<rparr>)
                   else b2);
             b4 = (if blockPlaying b3
                   then b3\<lparr>blockPlaying := False, subscribed := False, stopped := Suc (stopped b3)\<rparr>
                   else b3)
         in if \<not> recorder env then b4\<lparr>doneCalls := Suc (doneCalls b4)\<rparr> else b4)
      else b)"

definition onWatchDog :: "block_env \<Rightarrow> wd_error \<Rightarrow> block \<Rightarrow> block" where
  "onWatchDog env error b =
     (let b1 = b\<lparr>hasWatchDog := False\<rparr>;
          b2 = (if error \<noteq> Null then failure (Some (Reported error)) b1 else b1)
      in if \<not> blockPlaying b2 \<and> \<not> calling b2 then finish env b2 else b2)"

definition onEndPlay :: "block_env \<Rightarrow> block \<Rightarrow> block" where
  "onEndPlay env b =
     (let b1 = b\<lparr>blockPlaying := False\<rparr>
      in if \<not> hasWatchDog b1 then finish env b1 else b1)"

text \<open>An operation on the Block's WatchDog, followed by \<open>onWatchDog\<close> if it fired.\<close>

definition block_dog ::
  "block_env \<Rightarrow>
   (unit WatchDog \<times> host \<Rightarrow> (unit WatchDog \<times> host) \<times> (unit \<times> wd_error) option) \<Rightarrow>
   block \<Rightarrow> block" where
  "block_dog env f b =
     (case f (dogObj b, blockHost b) of
        ((wd, h), r) \<Rightarrow>
          (let b1 = b\<lparr>dogObj := wd, blockHost := h\<rparr>
           in case r of None \<Rightarrow> b1 | Some (c, e) \<Rightarrow> onWatchDog env e b1))"

text \<open>
  The user's test function as the Block sees it: what it does with the \<open>done\<close> function
  while it runs, and whether it returns or throws. A function that declares no
  parameter receives \<open>null\<close> for \<open>done\<close>, and a call of it throws.
\<close>

datatype block_action = BDone | BFail "string option"

record user_fn =
  acts :: "block_action list"
  throws :: "err option"

fun run_acts :: "block_env \<Rightarrow> block_action list \<Rightarrow> block \<Rightarrow> block \<times> err option" where
  "run_acts env [] b = (b, None)"
| "run_acts env (a # as) b =
     (if \<not> isAsync b then (b, Some (Err ''TypeError''))
      else run_acts env as
             (case a of BDone \<Rightarrow> block_dog env wd_done b | BFail e \<Rightarrow> block_dog env (wd_fail e) b))"

text \<open>
  \<open>call()\<close>: with \<open>handleExceptions\<close> the exception is kept in \<open>error\<close>, whatever its
  value.
\<close>

definition call :: "block_env \<Rightarrow> user_fn \<Rightarrow> block \<Rightarrow> block" where
  "call env f b =
     (case run_acts env (acts f) (b\<lparr>calling := True\<rparr>) of
        (b1, thrown) \<Rightarrow>
          (case (case thrown of None \<Rightarrow> throws f | Some e \<Rightarrow> Some e) of
             None \<Rightarrow> b1\<lparr>calling := False\<rparr>
           | Some e \<Rightarrow>
               if blockHandleExceptions env then b1\<lparr>blockError := Some e, calling := False\<rparr>
               else b1\<lparr>propagated := Some e\<rparr>))"

text \<open>
  \<open>invoke()\<close>; \<open>player\<close> is the shared Player as the user function left it (\<open>None\<close> when
  none was created). The last test is \<open>me.error || (!me.playing && !me.watchDog)\<close>.
\<close>

definition invoke :: "block_env \<Rightarrow> user_fn \<Rightarrow> world option \<Rightarrow> block \<Rightarrow> block" where
  "invoke env f player b =
     (let b1 = (if isAsync b then
                  (case new_WatchDog (blockOptTimeout env) () True (blockTimeout b) (blockHost b) of
                     (wd, h) \<Rightarrow> b\<lparr>dogObj := wd, blockHost := h, hasWatchDog := True\<rparr>)
                else b);
          b2 = call env f b1
      in if propagated b2 \<noteq> None then b2
         else
           (let b3 = (if ST_isPlayingEvents player
                      then b2\<lparr>blockPlaying := True, subscribed := True\<rparr> else b2)
            in if truthy_err (blockError b3) \<or> (\<not> blockPlaying b3 \<and> \<not> hasWatchDog b3)
               then finish env b3 else b3))"

text \<open>The constructor \<open>new ST.Block(fn, timeout)\<close> and the \<open>wrapperFn\<close> it creates.\<close>

definition new_Block :: "bool \<Rightarrow> int option \<Rightarrow> block" where
  "new_Block async tmo =
     \<lparr>isAsync = async, blockTimeout = tmo, hasDone = False, calling = False,
      blockPlaying = False, blockError = None, hasWatchDog = False,
      dogObj = \<lparr>callback = None, hasScope = False, timer = None, timeout = None\<rparr>,
      blockHost = host0, subscribed = False, stopped = 0, results = [], doneCalls = 0,
      propagated = None\<rparr>"

definition wrapperFn :: "block_env \<Rightarrow> user_fn \<Rightarrow> world option \<Rightarrow> block \<Rightarrow> block" where
  "wrapperFn env f player b = invoke env f player (b\<lparr>hasDone := True\<rparr>)"

text \<open>
  What can happen after \<open>wrapperFn\<close> returned: the Player fires \<open>end\<close> (delivered once
  to a subscribed Block), the user calls \<open>done\<close> or \<open>done.fail\<close>, or the deadline ticks.
\<close>

datatype block_event = EndPlay | DogDone | DogFail "string option" | DogTick

fun block_step :: "block_env \<Rightarrow> block_event \<Rightarrow> block \<Rightarrow> block" where
  "block_step env EndPlay b =
     (if subscribed b then onEndPlay env (b\<lparr>subscribed := False\<rparr>) else b)"
| "block_step env DogDone b = block_dog env wd_done b"
| "block_step env (DogFail e) b = block_dog env (wd_fail e) b"
| "block_step env DogTick b = block_dog env wd_onTick b"

fun block_run :: "block_env \<Rightarrow> block_event list \<Rightarrow> block \<Rightarrow> block" where
  "block_run env [] b = b"
| "block_run env (e # es) b = block_run env es (block_step env e b)"


section \<open>Concrete inputs\<close>

text \<open>A store with the records 1 to 4 (each its own id), and configs addressing by id.\<close>

definition store4 :: "(nat, nat, nat) store" where
  "store4 =
     \<lparr>getById = (\<lambda>i. if i \<in> {1, 2, 3, 4} then Some i else None),
      getAt = (\<lambda>i. if 0 \<le> i \<and> i < 4 then Some (nat i + 1) else None),
      getRange = (\<lambda>s e. [1, 2, 3, 4]), eachItems = [1, 2, 3, 4], get = (\<lambda>r p. Some r)\<rparr>"

definition cfg_ids :: "string \<Rightarrow> nat list \<Rightarrow> (nat, nat) sel_config" where
  "cfg_ids m l =
     \<lparr>mode = m, stype = ''id'', ids = Some l, indexes = None, range_start = None,
      range_end = None, propertyName = None, propertyValue = None\<rparr>"


text \<open>
  Two states of the world that differ at most in the stores of objects and elements and
  in the id counter: what the loop of \<open>add\<close> may change.
\<close>

definition same_player :: "world \<Rightarrow> world \<Rightarrow> bool" where
  "same_player w w' =
     (w' = w\<lparr>objs := objs w', nextObj := nextObj w', els := els w', nextEl := nextEl w',
            nextId := nextId w'\<rparr>)"

text \<open>An environment in which everything is found, visible, attached and ready.\<close>

definition env0 :: env where
  "env0 =
     \<lparr>optTimeout = Some 5000, handleExceptions = True, optEventDelay = None,
      optTypingDelay = None, optVisualFeedback = True,
      prog = (\<lambda>k. \<lparr>arity = 0, body = [], outcome = Returns\<rparr>),
      now = 1000, later = 1000, ST_find = (\<lambda>t. Some 1), isVisible = (\<lambda>n. True),
      isDetached = (\<lambda>n. False), animating = False, customReady = (\<lambda>k. RTrue),
      gestureComplete = (\<lambda>i. True), domId = (\<lambda>n. ''btn''), tagName = (\<lambda>n. ''DIV''),
      funcToString = (\<lambda>k. ''function''), numToString = (\<lambda>i. ''0''),
      focusEl = (\<lambda>n. None)\<rparr>"

text \<open>The same with \<open>ST.options.timeout = 0\<close>, and a click with an explicit timeout.\<close>

definition env_notimeout :: env where
  "env_notimeout = env0\<lparr>optTimeout := Some 0\<rparr>"

definition click200 :: entry where
  "click200 = ECfg (Playable0\<lparr>ptype := Some ''click'', ev_timeout := Some 200\<rparr>)"


text \<open>
  Player scenarios. Every user function pauses the Player (\<open>env_pause\<close>); function \<open>0\<close>
  enqueues \<open>[null, fn 3]\<close> and then \<open>[fn 4]\<close> (\<open>env_skip\<close>); every user function declares
  \<open>done\<close> and returns without calling it (\<open>env_async\<close>); every user function throws
  (\<open>env_throw\<close>); custom \<open>ready\<close> functions answer \<open>false\<close>, at the times \<open>1000\<close> and
  \<open>1300\<close> (\<open>env_never\<close>, \<open>env_late\<close>).
\<close>

definition env_pause :: env where
  "env_pause = env0\<lparr>prog := (\<lambda>k. \<lparr>arity = 0, body = [APause], outcome = Returns\<rparr>)\<rparr>"

definition env_skip :: env where
  "env_skip =
     env0\<lparr>prog := (\<lambda>k. if k = 0
                       then \<lparr>arity = 0,
                             body = [AAdd [Falsy, EFn (UserFn 3)], AAdd [EFn (UserFn 4)]],
                             outcome = Returns\<rparr>
                       else \<lparr>arity = 0, body = [], outcome = Returns\<rparr>)\<rparr>"






definition w_cb2 :: world where
  "w_cb2 = start (add env0 None [EFn (UserFn 0), EFn (UserFn 1)] (new_Player False))"

definition w_cb3 :: world where
  "w_cb3 = start (add env0 None [EFn (UserFn 0), EFn (UserFn 1), EFn (UserFn 2)]
                    (new_Player False))"







text \<open>Block scenarios: exception handling on, with and without the event recorder.\<close>

definition benv :: block_env where
  "benv = \<lparr>blockOptTimeout = Some 5000, blockHandleExceptions = True, recorder = False\<rparr>"

definition benv_recording :: block_env where
  "benv_recording = \<lparr>blockOptTimeout = Some 5000, blockHandleExceptions = True, recorder = True\<rparr>"

definition fn_plain :: user_fn where
  "fn_plain = \<lparr>acts = [], throws = None\<rparr>"

definition fn_throwing :: user_fn where
  "fn_throwing = \<lparr>acts = [], throws = Some (Err ''boom'')\<rparr>"

definition fn_falsy :: user_fn where
  "fn_falsy = \<lparr>acts = [], throws = Some ErrFalsy\<rparr>"

text \<open>The addresses that the loop of \<open>add\<close> pushes, given the next free address.\<close>

fun pushed :: "entry list \<Rightarrow> nat \<Rightarrow> nat list" where
  "pushed [] n = []"
| "pushed (Falsy # es) n = pushed es n"
| "pushed (EInst a # es) n = a # pushed es n"
| "pushed (e # es) n = n # pushed es (Suc n)"


text \<open>The next free object address after the loop of \<open>add\<close> has run over the entries.\<close>

fun nextAfter :: "entry list \<Rightarrow> nat \<Rightarrow> nat" where
  "nextAfter [] n = n"
| "nextAfter (Falsy # es) n = nextAfter es n"
| "nextAfter (EInst a # es) n = nextAfter es n"
| "nextAfter (e # es) n = nextAfter es (Suc n)"

text \<open>How \<open>failure\<close> reports a thrown truthy value.\<close>

definition report :: "err \<Rightarrow> result" where
  "report e = (case e of SpecDisabled m \<Rightarrow> Disabled m | _ \<Rightarrow> Failed (Thrown e))"

text \<open>
  What holds of a Block whenever \<open>wrapperFn\<close> or one of its handlers has returned, and
  what holds while the user function runs.
\<close>

definition block_inv :: "block_env \<Rightarrow> block \<Rightarrow> bool" where
  "block_inv env b =
     (hasWatchDog b = (callback (dogObj b) \<noteq> None)
      \<and> subscribed b = blockPlaying b
      \<and> calling b = (propagated b \<noteq> None)
      \<and> (if hasDone b
          then doneCalls b = 0 \<and> \<not> truthy_err (blockError b)
               \<and> (propagated b = None \<longrightarrow> hasWatchDog b \<or> blockPlaying b)
               \<and> (propagated b \<noteq> None \<longrightarrow> \<not> blockPlaying b)
          else doneCalls b = (if recorder env then 0 else 1)
               \<and> \<not> hasWatchDog b \<and> \<not> blockPlaying b \<and> propagated b = None))"

definition call_inv :: "block \<Rightarrow> bool" where
  "call_inv b =
     (hasDone b \<and> doneCalls b = 0 \<and> calling b
      \<and> hasWatchDog b = (callback (dogObj b) \<noteq> None)
      \<and> \<not> blockPlaying b \<and> \<not> subscribed b \<and> blockError b = None \<and> propagated b = None)"















section \<open>WatchDog: the callback is invoked at most once\<close>

lemma wd_cancel_callback: "callback (fst (wd_cancel wh)) = callback (fst wh)"
  by (cases wh) (simp add: wd_cancel_def split: option.splits)

lemma wd_cancel_timer: "timer (fst (wd_cancel wh)) = None"
  by (cases wh) (simp add: wd_cancel_def split: option.splits)

lemma wd_cancel_disarms:
  "timer w = Some t \<Longrightarrow> \<not> timer_armed t (snd (wd_cancel (w, h)))"
  by (cases t) (simp_all add: wd_cancel_def ST_deferCancel_def)

lemma wd_fire_dead:
  "callback (fst wh) = None \<Longrightarrow>
     snd (wd_fire e wh) = None \<and> callback (fst (fst (wd_fire e wh))) = None"
  using wd_cancel_callback [of wh]
  by (cases "wd_cancel wh") (simp add: wd_fire_def)

lemma wd_fire_after:
  "callback (fst (fst (wd_fire e wh))) = None \<and> timer (fst (fst (wd_fire e wh))) = None"
  using wd_cancel_timer [of wh]
  by (cases "wd_cancel wh") (auto simp add: wd_fire_def split: option.splits)

lemma wd_fire_live:
  "callback (fst wh) = Some c \<Longrightarrow> snd (wd_fire e wh) = Some (c, e)"
  using wd_cancel_callback [of wh]
  by (cases "wd_cancel wh") (simp add: wd_fire_def)

lemma wd_fire_host: "snd (fst (wd_fire e wh)) = snd (wd_cancel wh)"
  by (cases "wd_cancel wh") (simp add: wd_fire_def split: option.splits)

lemma wd_step_dead:
  "callback (fst wh) = None \<Longrightarrow>
     snd (wd_step opt a wh) = None \<and> callback (fst (fst (wd_step opt a wh))) = None"
proof (cases a)
  case OpDone
  assume "callback (fst wh) = None"
  then show ?thesis using OpDone wd_fire_dead [of wh Null] by (simp add: wd_done_def)
next
  case (OpFail e)
  assume "callback (fst wh) = None"
  then show ?thesis using OpFail wd_fire_dead [of wh]
    by (simp add: wd_fail_def split: option.splits)
next
  case OpTick
  assume d: "callback (fst wh) = None"
  obtain w h where wh: "wh = (w, h)" by (cases wh)
  show ?thesis
  proof (cases "timer w")
    case None
    then show ?thesis using OpTick d wh by (simp add: wd_onTick_def)
  next
    case (Some t)
    then show ?thesis using OpTick d wh
        wd_fire_dead [of "(w\<lparr>timer := None, timeout := None\<rparr>, h)"]
      by (simp add: wd_onTick_def Let_def)
  qed
next
  case OpCancel
  assume "callback (fst wh) = None"
  then show ?thesis using OpCancel wd_cancel_callback [of wh] by simp
next
  case OpDestroy
  show ?thesis using OpDestroy by (cases "wd_cancel wh") (simp add: wd_destroy_def)
next
  case (OpSet tmo)
  assume "callback (fst wh) = None"
  then show ?thesis using OpSet wd_cancel_callback [of wh]
    by (cases "wd_cancel wh") (simp add: wd_set_def split: prod.splits)
qed

lemma wd_run_Cons:
  "snd (wd_run opt (a # as) wh) =
     (case snd (wd_step opt a wh) of None \<Rightarrow> [] | Some i \<Rightarrow> [i])
       @ snd (wd_run opt as (fst (wd_step opt a wh)))"
  by (simp split: prod.splits)

lemma wd_run_dead:
  "callback (fst wh) = None \<Longrightarrow> snd (wd_run opt ops wh) = []"
proof (induction ops arbitrary: wh)
  case Nil
  then show ?case by simp
next
  case (Cons a as)
  from wd_step_dead [OF Cons.prems, of opt a]
  have s: "snd (wd_step opt a wh) = None"
    and d: "callback (fst (fst (wd_step opt a wh))) = None" by simp_all
  from Cons.IH [OF d] s show ?case
    by (simp only: wd_run_Cons) simp
qed

lemma wd_step_invoked:
  "snd (wd_step opt a wh) = Some x \<Longrightarrow> callback (fst (fst (wd_step opt a wh))) = None"
proof (cases a)
  case OpDone
  then show ?thesis using wd_fire_after [of Null wh] by (simp add: wd_done_def)
next
  case (OpFail e)
  then show ?thesis using wd_fire_after [of _ wh] by (simp add: wd_fail_def split: option.splits)
next
  case OpTick
  assume i: "snd (wd_step opt a wh) = Some x"
  obtain w h where wh: "wh = (w, h)" by (cases wh)
  show ?thesis
  proof (cases "timer w")
    case None
    then show ?thesis using OpTick i wh by (simp add: wd_onTick_def)
  next
    case (Some t)
    then show ?thesis using OpTick wh
        wd_fire_after [of _ "(w\<lparr>timer := None, timeout := None\<rparr>, h)"]
      by (simp add: wd_onTick_def Let_def)
  qed
qed simp_all

lemma wd_run_once: "length (snd (wd_run opt ops wh)) \<le> 1"
proof (induction ops arbitrary: wh)
  case Nil
  then show ?case by simp
next
  case (Cons a as)
  show ?case
  proof (cases "snd (wd_step opt a wh)")
    case None
    then show ?thesis using Cons.IH [of "fst (wd_step opt a wh)"]
      by (simp only: wd_run_Cons) simp
  next
    case (Some x)
    from wd_run_dead [OF wd_step_invoked [OF Some], of opt as] Some
    show ?thesis by (simp only: wd_run_Cons) simp
  qed
qed

lemma wd_destroy_dead: "callback (fst (wd_destroy wh)) = None"
  by (cases "wd_cancel wh") (simp add: wd_destroy_def)

text \<open>The first of \<open>done\<close>, \<open>fail\<close> or a tick of the armed timer, on a live WatchDog.\<close>

definition firing_op :: "wd_op \<Rightarrow> 'c WatchDog \<Rightarrow> bool" where
  "firing_op a w =
     (case a of OpDone \<Rightarrow> True | OpFail e \<Rightarrow> True | OpTick \<Rightarrow> timer w \<noteq> None | _ \<Rightarrow> False)"

lemma wd_first_fire:
  assumes live: "callback w = Some c" and f: "firing_op a w"
  shows "(\<exists>e. snd (wd_step opt a (w, h)) = Some (c, e))
       \<and> callback (fst (fst (wd_step opt a (w, h)))) = None
       \<and> timer (fst (fst (wd_step opt a (w, h)))) = None"
proof (cases a)
  case OpDone
  then show ?thesis
    using wd_fire_live [of "(w, h)" c Null] wd_fire_after [of Null "(w, h)"] live
    by (simp add: wd_done_def)
next
  case (OpFail e)
  then show ?thesis
    using wd_fire_live [of "(w, h)" c] wd_fire_after [of _ "(w, h)"] live
    by (simp add: wd_fail_def split: option.splits)
next
  case OpTick
  then obtain t where t: "timer w = Some t" using f by (auto simp: firing_op_def)
  let ?w = "w\<lparr>timer := None, timeout := None\<rparr>"
  from live have "callback (fst (?w, h)) = Some c" by simp
  from wd_fire_live [OF this] wd_fire_after [of _ "(?w, h)"] OpTick t
  show ?thesis by (simp add: wd_onTick_def Let_def)
qed (use f in \<open>simp_all add: firing_op_def\<close>)

lemma wd_user_fire_disarms:
  assumes t: "timer w = Some t" and a: "a = OpDone \<or> a = OpFail e"
  shows "\<not> timer_armed t (snd (fst (wd_step opt a (w, h))))"
  using a wd_cancel_disarms [OF t, of h] wd_fire_host [of _ "(w, h)"]
  by (auto simp: wd_done_def wd_fail_def split: option.splits if_splits)

text \<open>
  C10. A WatchDog invokes its callback at most once, whatever sequence of \<open>done\<close>,
  \<open>fail\<close>, timer ticks, \<open>cancel\<close>, \<open>set\<close> and \<open>destroy\<close> it sees. On a live WatchDog the
  first \<open>done\<close>, \<open>fail\<close> or tick of the armed timer invokes the callback, clears it and
  clears the timer (\<open>done\<close> and \<open>fail\<close> cancel the host timer); after an invocation every
  later operation invokes nothing; and after \<open>destroy\<close> nothing is ever invoked.
\<close>

theorem watchdog_callback_at_most_once:
  "length (snd (wd_run opt ops wh)) \<le> 1
   \<and> (callback w = Some c \<and> firing_op a w \<longrightarrow>
        (\<exists>e. snd (wd_step opt a (w, h)) = Some (c, e))
        \<and> callback (fst (fst (wd_step opt a (w, h)))) = None
        \<and> timer (fst (fst (wd_step opt a (w, h)))) = None)
   \<and> (timer w = Some t \<and> (a = OpDone \<or> a = OpFail e) \<longrightarrow>
        \<not> timer_armed t (snd (fst (wd_step opt a (w, h)))))
   \<and> (snd (wd_step opt a wh) \<noteq> None \<longrightarrow> snd (wd_run opt ops (fst (wd_step opt a wh))) = [])
   \<and> snd (wd_run opt ops (wd_destroy wh)) = []"
proof (intro conjI impI)
  show "length (snd (wd_run opt ops wh)) \<le> 1" by (rule wd_run_once)
next
  assume "callback w = Some c \<and> firing_op a w"
  then show "\<exists>e. snd (wd_step opt a (w, h)) = Some (c, e)"
    and "callback (fst (fst (wd_step opt a (w, h)))) = None"
    and "timer (fst (fst (wd_step opt a (w, h)))) = None"
    using wd_first_fire [of w c a opt h] by simp_all
next
  assume "timer w = Some t \<and> (a = OpDone \<or> a = OpFail e)"
  then show "\<not> timer_armed t (snd (fst (wd_step opt a (w, h))))"
    using wd_user_fire_disarms [of w t a e opt h] by simp
next
  assume "snd (wd_step opt a wh) \<noteq> None"
  then obtain x where "snd (wd_step opt a wh) = Some x" by auto
  from wd_run_dead [OF wd_step_invoked [OF this]]
  show "snd (wd_run opt ops (fst (wd_step opt a wh))) = []" .
next
  show "snd (wd_run opt ops (wd_destroy wh)) = []"
    by (rule wd_run_dead [OF wd_destroy_dead])
qed

theorem watchdog_callback_at_most_once_witness:
  "new_WatchDog (Some 5000) (7::nat) True None host0 =
     (\<lparr>callback = Some 7, hasScope = True, timer = Some (CancelFn 1 5000), timeout = None\<rparr>,
      \<lparr>armed = [1], nextTimer = 2\<rparr>)
   \<and> firing_op OpDone
        \<lparr>callback = Some (7::nat), hasScope = True, timer = Some (CancelFn 1 5000), timeout = None\<rparr>
   \<and> snd (wd_step (Some 5000) OpDone (new_WatchDog (Some 5000) (7::nat) True None host0))
        = Some (7, Null)
   \<and> \<not> timer_armed (CancelFn 1 5000)
        (snd (fst (wd_step (Some 5000) OpDone (new_WatchDog (Some 5000) (7::nat) True None host0))))
   \<and> snd (wd_run (Some 5000) [OpTick, OpDone, OpFail None]
        (fst (wd_step (Some 5000) OpDone (new_WatchDog (Some 5000) (7::nat) True None host0)))) = []
   \<and> length (snd (wd_run (Some 5000) [OpTick, OpDone, OpFail None]
        (new_WatchDog (Some 5000) (7::nat) True None host0))) \<le> 1"
  using watchdog_callback_at_most_once [of "Some 5000" "[OpTick, OpDone, OpFail None]"
      "new_WatchDog (Some 5000) (7::nat) True None host0"
      "\<lparr>callback = Some (7::nat), hasScope = True, timer = Some (CancelFn 1 5000), timeout = None\<rparr>"
      7 OpDone "\<lparr>armed = [1], nextTimer = 2\<rparr>" "CancelFn 1 5000" None]
  by (simp add: new_WatchDog_def wd_set_def wd_cancel_def ST_timeout_def ST_doTimeout_def
      ST_defer_def host0_def firing_op_def wd_done_def wd_fire_def ST_deferCancel_def)

section \<open>The selection validator\<close>

lemma matchCount_le: "matchCount sel rs \<le> length rs"
  by (induction rs) auto

lemma matchCount_all: "(matchCount sel rs = length rs) = (\<forall>r\<in>set rs. r \<in> set sel)"
proof (induction rs)
  case Nil
  show ?case by simp
next
  case (Cons r rs)
  then show ?case using matchCount_le [of sel rs] by auto
qed

lemma matchCount_none: "(matchCount sel rs = 0) = (\<forall>r\<in>set rs. r \<notin> set sel)"
  by (induction rs) auto

text \<open>
  C7, as stated, fails in \<open>deselect\<close> mode: the claim makes the validator true exactly
  when none of the requested records is selected. Requesting the id 99, which the store
  does not hold, resolves no record, so none of the requested records is in the (empty)
  selection; the validator still answers \<open>false\<close>, because one id was requested and no
  record was found.
\<close>

theorem deselect_unresolved_counterexample:
  "getRecords store4 (cfg_ids ''deselect'' [99]) = Inr []
   \<and> validateSelections store4 [] (cfg_ids ''deselect'' [99]) = Inr False"
  by (simp add: validateSelections_def getRecords_def store4_def cfg_ids_def expectedLength_def)

text \<open>
  C7, amended. When the records resolve, the validator returns true exactly when the
  number of resolved records equals the number of requested ids/indexes (in both modes,
  whenever that number is defined) and, in \<open>select\<close> mode, every resolved record is in
  the selection, in any other mode none of them is. When the numbers differ the result
  is false whatever the selection holds.
\<close>

theorem validateSelections_meaning:
  assumes "getRecords st config = Inr records"
  shows "validateSelections st selections config =
           Inr ((expectedLength config = None \<or> expectedLength config = Some (length records))
                \<and> (if mode config = ''select'' then \<forall>r\<in>set records. r \<in> set selections
                    else \<forall>r\<in>set records. r \<notin> set selections))
       \<and> (\<forall>n. expectedLength config = Some n \<and> n \<noteq> length records \<longrightarrow>
             (\<forall>sel. validateSelections st sel config = Inr False))"
  using assms
  by (auto simp: validateSelections_def Let_def matchCount_all matchCount_none split: option.splits)

theorem validateSelections_meaning_witness:
  "getRecords store4 (cfg_ids ''select'' [1, 3]) = Inr [1, 3]
   \<and> validateSelections store4 [1, 3] (cfg_ids ''select'' [1, 3]) = Inr True
   \<and> expectedLength (cfg_ids ''select'' [1, 99]) = Some 2
   \<and> getRecords store4 (cfg_ids ''select'' [1, 99]) = Inr [1]
   \<and> validateSelections store4 [1] (cfg_ids ''select'' [1, 99]) = Inr False"
proof -
  have r: "getRecords store4 (cfg_ids ''select'' [1, 3]) = Inr [1, 3]"
    by (simp add: getRecords_def store4_def cfg_ids_def)
  have r2: "getRecords store4 (cfg_ids ''select'' [1, 99]) = Inr [1]"
    by (simp add: getRecords_def store4_def cfg_ids_def)
  have e: "expectedLength (cfg_ids ''select'' [1, 99]) = Some 2"
    by (simp add: expectedLength_def cfg_ids_def)
  from validateSelections_meaning [OF r, of "[1, 3]"]
  have a: "validateSelections store4 [1, 3] (cfg_ids ''select'' [1, 3]) = Inr True"
    by (simp add: expectedLength_def cfg_ids_def)
  from validateSelections_meaning [OF r2, of "[1]"] e
  have b: "validateSelections store4 [1] (cfg_ids ''select'' [1, 99]) = Inr False"
    by simp
  from r r2 e a b show ?thesis by simp
qed

section \<open>What \<open>add\<close> changes\<close>

lemma same_player_refl: "same_player w w"
  by (simp add: same_player_def)

lemma same_player_fields:
  assumes "same_player w w'"
  shows "events w' = events w" "pendingEvent w' = pendingEvent w" "pendingFn w' = pendingFn w"
    "paused w' = paused w" "eventTimer w' = eventTimer w" "active w' = active w"
    "hostq w' = hostq w" "timerAct w' = timerAct w" "trace w' = trace w" "hung w' = hung w"
    "dogs w' = dogs w" "dogFailed w' = dogFailed w" "nextDog w' = nextDog w"
    "gestureQueue w' = gestureQueue w" "gestureActive w' = gestureActive w"
    "eventDelay w' = eventDelay w" "typingDelay w' = typingDelay w"
    "player_timeout w' = player_timeout w" "waitInterval w' = waitInterval w"
    "pauseForAnimations w' = pauseForAnimations w" "visualFeedback w' = visualFeedback w"
    "touchCount w' = touchCount w" "lastGestureEndTime w' = lastGestureEndTime w"
proof -
  from assms have e: "w' = w\<lparr>objs := objs w', nextObj := nextObj w', els := els w',
       nextEl := nextEl w', nextId := nextId w'\<rparr>" by (simp only: same_player_def)
  show "events w' = events w" using arg_cong [OF e, of events] by simp
  show "pendingEvent w' = pendingEvent w" using arg_cong [OF e, of pendingEvent] by simp
  show "pendingFn w' = pendingFn w" using arg_cong [OF e, of pendingFn] by simp
  show "paused w' = paused w" using arg_cong [OF e, of paused] by simp
  show "eventTimer w' = eventTimer w" using arg_cong [OF e, of eventTimer] by simp
  show "active w' = active w" using arg_cong [OF e, of active] by simp
  show "hostq w' = hostq w" using arg_cong [OF e, of hostq] by simp
  show "timerAct w' = timerAct w" using arg_cong [OF e, of timerAct] by simp
  show "trace w' = trace w" using arg_cong [OF e, of trace] by simp
  show "hung w' = hung w" using arg_cong [OF e, of hung] by simp
  show "dogs w' = dogs w" using arg_cong [OF e, of dogs] by simp
  show "dogFailed w' = dogFailed w" using arg_cong [OF e, of dogFailed] by simp
  show "nextDog w' = nextDog w" using arg_cong [OF e, of nextDog] by simp
  show "gestureQueue w' = gestureQueue w" using arg_cong [OF e, of gestureQueue] by simp
  show "gestureActive w' = gestureActive w" using arg_cong [OF e, of gestureActive] by simp
  show "eventDelay w' = eventDelay w" using arg_cong [OF e, of eventDelay] by simp
  show "typingDelay w' = typingDelay w" using arg_cong [OF e, of typingDelay] by simp
  show "player_timeout w' = player_timeout w" using arg_cong [OF e, of player_timeout] by simp
  show "waitInterval w' = waitInterval w" using arg_cong [OF e, of waitInterval] by simp
  show "pauseForAnimations w' = pauseForAnimations w"
    using arg_cong [OF e, of pauseForAnimations] by simp
  show "visualFeedback w' = visualFeedback w" using arg_cong [OF e, of visualFeedback] by simp
  show "touchCount w' = touchCount w" using arg_cong [OF e, of touchCount] by simp
  show "lastGestureEndTime w' = lastGestureEndTime w"
    using arg_cong [OF e, of lastGestureEndTime] by simp
qed

lemma same_player_trans: "same_player w w1 \<Longrightarrow> same_player w1 w2 \<Longrightarrow> same_player w w2"
proof -
  assume a: "same_player w w1" and b: "same_player w1 w2"
  from a have a': "w1 = w\<lparr>objs := objs w1, nextObj := nextObj w1, els := els w1,
       nextEl := nextEl w1, nextId := nextId w1\<rparr>" by (simp only: same_player_def)
  from b have b': "w2 = w1\<lparr>objs := objs w2, nextObj := nextObj w2, els := els w2,
       nextEl := nextEl w2, nextId := nextId w2\<rparr>" by (simp only: same_player_def)
  have "w2 = (w\<lparr>objs := objs w1, nextObj := nextObj w1, els := els w1, nextEl := nextEl w1,
            nextId := nextId w1\<rparr>)\<lparr>objs := objs w2, nextObj := nextObj w2, els := els w2,
            nextEl := nextEl w2, nextId := nextId w2\<rparr>"
    by (subst b', subst a') (rule refl)
  then have "w2 = w\<lparr>objs := objs w2, nextObj := nextObj w2, els := els w2, nextEl := nextEl w2,
            nextId := nextId w2\<rparr>" by simp
  then show ?thesis by (simp only: same_player_def)
qed

lemma objs_upd: "objs (upd a f w) b = (if b = a then f (objs w a) else objs w b)"
  by (simp add: upd_def)

lemma same_player_upd: "same_player w (upd a f w)"
  by (simp add: same_player_def upd_def)

lemma same_player_add_target: "same_player w (add_target q a w)"
  by (cases "target (objs w a)") (simp_all add: same_player_def add_target_def upd_def)

lemma same_player_add_relatedTarget: "same_player w (add_relatedTarget q a w)"
  by (cases "relatedTarget (objs w a)")
    (simp_all add: same_player_def add_relatedTarget_def upd_def)

lemma same_player_promote: "promote e w = Some (a, w1) \<Longrightarrow> same_player w w1"
  by (cases e) (auto simp: same_player_def)

lemma same_player_add_entry: "same_player w (snd (add_entry env e (q, w)))"
proof (cases "promote e w")
  case None
  then show ?thesis by (simp add: add_entry_def same_player_refl)
next
  case (Some aw)
  obtain a w1 where aw: "aw = (a, w1)" by (cases aw)
  let ?w2 = "add_target q a w1"
  let ?w3 = "add_relatedTarget q a ?w2"
  let ?w4 = "upd a (add_defaults env ?w3) ?w3"
  let ?w5 = "upd a (\<lambda>p. p\<lparr>hasPlayer := True, pid := nextId ?w4, state := ''queued''\<rparr>) ?w4"
  have r: "snd (add_entry env e (q, w)) = ?w5\<lparr>nextId := Suc (nextId ?w5)\<rparr>"
    using Some aw by (simp add: add_entry_def Let_def)
  have s1: "same_player w w1" using same_player_promote [of e w a w1] Some aw by simp
  have s2: "same_player w1 ?w2" by (rule same_player_add_target)
  have s3: "same_player ?w2 ?w3" by (rule same_player_add_relatedTarget)
  have s4: "same_player ?w3 ?w4" by (rule same_player_upd)
  have s5: "same_player ?w4 ?w5" by (rule same_player_upd)
  have s6: "same_player ?w5 (?w5\<lparr>nextId := Suc (nextId ?w5)\<rparr>)"
    by (simp add: same_player_def)
  show ?thesis
    unfolding r
    by (rule same_player_trans [OF same_player_trans [OF same_player_trans
          [OF same_player_trans [OF same_player_trans [OF s1 s2] s3] s4] s5] s6])
qed

lemma same_player_add_loop: "same_player w (snd (add_loop env es (q, w)))"
proof (induction es arbitrary: q w)
  case Nil
  show ?case by (simp add: same_player_refl)
next
  case (Cons e es)
  obtain q1 w1 where s: "add_entry env e (q, w) = (q1, w1)" by (cases "add_entry env e (q, w)")
  from same_player_add_entry [of w env e q] s have a: "same_player w w1" by simp
  from Cons.IH [of w1 q1] have b: "same_player w1 (snd (add_loop env es (q1, w1)))" .
  show ?case using same_player_trans [OF a b] s by simp
qed

lemma add_target_timeout: "ev_timeout (objs (add_target q a w) b) = ev_timeout (objs w b)"
  by (cases "target (objs w a)") (simp_all add: add_target_def upd_def)

lemma add_relatedTarget_timeout:
  "ev_timeout (objs (add_relatedTarget q a w) b) = ev_timeout (objs w b)"
  by (cases "relatedTarget (objs w a)") (simp_all add: add_relatedTarget_def upd_def)

lemma add_defaults_timeout0:
  "\<not> truthy_num (optTimeout env) \<Longrightarrow> ev_timeout (add_defaults env w p) = Some 0"
  by (simp add: add_defaults_def Let_def)

lemma promote_other:
  "promote e w = Some (a, w1) \<Longrightarrow> b \<noteq> a \<Longrightarrow> objs w1 b = objs w b"
  by (cases e) auto

lemma add_entry_timeout0:
  assumes z: "\<not> truthy_num (optTimeout env)"
  shows "\<exists>n. fst (add_entry env e (q, w)) = q @ n
           \<and> (\<forall>a\<in>set n. ev_timeout (objs (snd (add_entry env e (q, w))) a) = Some 0)
           \<and> (\<forall>b. ev_timeout (objs w b) = Some 0 \<longrightarrow>
                  ev_timeout (objs (snd (add_entry env e (q, w))) b) = Some 0)"
proof (cases "promote e w")
  case None
  then show ?thesis by (simp add: add_entry_def)
next
  case (Some aw)
  obtain a w1 where aw: "aw = (a, w1)" by (cases aw)
  have other: "\<And>b. b \<noteq> a \<Longrightarrow> objs w1 b = objs w b"
    using promote_other Some aw by blast
  show ?thesis
    using Some aw add_defaults_timeout0 [OF z] other
    by (auto simp: add_entry_def Let_def objs_upd add_target_timeout add_relatedTarget_timeout)
qed

lemma add_loop_timeout0:
  assumes z: "\<not> truthy_num (optTimeout env)"
  shows "\<exists>n. fst (add_loop env es (q, w)) = q @ n
           \<and> (\<forall>a\<in>set n. ev_timeout (objs (snd (add_loop env es (q, w))) a) = Some 0)
           \<and> (\<forall>b. ev_timeout (objs w b) = Some 0 \<longrightarrow>
                  ev_timeout (objs (snd (add_loop env es (q, w))) b) = Some 0)"
proof (induction es arbitrary: q w)
  case Nil
  show ?case by simp
next
  case (Cons e es)
  obtain q1 w1 where s: "add_entry env e (q, w) = (q1, w1)" by (cases "add_entry env e (q, w)")
  from add_entry_timeout0 [OF z, of e q w] s
  obtain n1 where n1: "q1 = q @ n1" "\<forall>a\<in>set n1. ev_timeout (objs w1 a) = Some 0"
    "\<forall>b. ev_timeout (objs w b) = Some 0 \<longrightarrow> ev_timeout (objs w1 b) = Some 0" by auto
  from Cons.IH [of q1 w1]
  obtain n2 where n2: "fst (add_loop env es (q1, w1)) = q1 @ n2"
    "\<forall>a\<in>set n2. ev_timeout (objs (snd (add_loop env es (q1, w1))) a) = Some 0"
    "\<forall>b. ev_timeout (objs w1 b) = Some 0 \<longrightarrow>
         ev_timeout (objs (snd (add_loop env es (q1, w1))) b) = Some 0" by auto
  show ?case
    using n1 n2 s by (intro exI [of _ "n1 @ n2"]) auto
qed

lemma add_splice:
  assumes l: "add_loop env entries (take (insertIndex idx w) (events w),
                 advanceMarker idx (length entries) w) = (q1, w2)"
  shows "add env idx entries w =
           playIfIdle (w2\<lparr>events := q1 @ drop (insertIndex idx w) (events w)\<rparr>)"
proof (cases "insertIndex idx w < length (events w)")
  case True
  show ?thesis
  proof (cases "insertIndex idx w = 0")
    case z: True
    with True l show ?thesis by (simp add: add_def Let_def)
  next
    case False
    with True l show ?thesis by (simp add: add_def Let_def)
  qed
next
  case False
  with l show ?thesis by (simp add: add_def Let_def)
qed

lemma advanceMarker_frame:
  "events (advanceMarker idx c w) = events w"
  "pendingEvent (advanceMarker idx c w) = pendingEvent w"
  "objs (advanceMarker idx c w) = objs w"
  by (simp_all add: advanceMarker_def split: option.splits)

lemma playEventSoon_objs: "objs (playEventSoon a d w) = objs w"
  by (simp add: playEventSoon_def Let_def split: prod.splits)

lemma playEventSoon_events:
  "events (playEventSoon a d w) = events w" "pendingEvent (playEventSoon a d w) = pendingEvent w"
  by (simp_all add: playEventSoon_def Let_def split: prod.splits)

lemma playNext_timeout: "ev_timeout (objs (playNext w) b) = ev_timeout (objs w b)"
  by (simp add: playNext_def onEnd_def emit_def playEventSoon_objs objs_upd split: list.splits)

lemma playNext_members:
  "set (events (playNext w)) \<union> set_option (pendingEvent (playNext w))
     \<subseteq> set (events w) \<union> set_option (pendingEvent w)"
  by (auto simp: playNext_def onEnd_def emit_def playEventSoon_events upd_def split: list.splits if_splits)

lemma add_timeout0:
  assumes z: "\<not> truthy_num (optTimeout env)"
    and a: "a \<in> set (events (add env idx entries w)) \<union> set_option (pendingEvent (add env idx entries w))"
    and new: "a \<notin> set (events w) \<union> set_option (pendingEvent w)"
  shows "ev_timeout (objs (add env idx entries w) a) = Some 0"
proof -
  let ?i = "insertIndex idx w"
  let ?w1 = "advanceMarker idx (length entries) w"
  obtain q1 w2 where l: "add_loop env entries (take ?i (events w), ?w1) = (q1, w2)"
    by (cases "add_loop env entries (take ?i (events w), ?w1)")
  let ?w3 = "w2\<lparr>events := q1 @ drop ?i (events w)\<rparr>"
  have r: "add env idx entries w = playIfIdle ?w3" by (rule add_splice [OF l])
  from add_loop_timeout0 [OF z, of entries "take ?i (events w)" ?w1] l
  obtain n where n: "q1 = take ?i (events w) @ n" "\<forall>a\<in>set n. ev_timeout (objs w2 a) = Some 0"
    by auto
  have mem3: "set (events ?w3) \<subseteq> set (events w) \<union> set n"
    using n(1) by (auto dest: in_set_takeD in_set_dropD)
  have pe3: "pendingEvent ?w3 = pendingEvent w"
    using same_player_fields(2) [OF same_player_add_loop [of ?w1 env entries "take ?i (events w)"]] l
    by (simp add: advanceMarker_frame)
  have "a \<in> set (events ?w3) \<union> set_option (pendingEvent ?w3)"
    using a r playNext_members [of ?w3] by (auto simp: playIfIdle_def split: if_splits)
  with mem3 pe3 new have "a \<in> set n" by auto
  with n(2) have "ev_timeout (objs ?w3 a) = Some 0" by simp
  then show ?thesis using r playNext_timeout [of ?w3 a] by (simp add: playIfIdle_def)
qed


section \<open>The global timeout \<open>0\<close>\<close>

text \<open>
  C9. If \<open>ST.options.timeout\<close> is \<open>0\<close>, every playable that \<open>add\<close> puts into the queue
  (or hands on to \<open>playNext\<close> as the pending event) has its timeout forced to \<open>0\<close>,
  whatever its config said; \<open>ST.timeout\<close> returns \<open>ST.emptyFn\<close> and arms no timer, also
  for an explicit number of milliseconds; and a new WatchDog holds \<open>ST.emptyFn\<close> as its
  timer with the host left untouched, so no deadline can tick.
\<close>

theorem global_timeout_zero_disables_timeouts:
  assumes z: "optTimeout env = Some 0"
  shows "(\<forall>a. a \<in> set (events (add env idx entries w))
                  \<union> set_option (pendingEvent (add env idx entries w)) \<longrightarrow>
              a \<notin> set (events w) \<union> set_option (pendingEvent w) \<longrightarrow>
              ev_timeout (objs (add env idx entries w) a) = Some 0)
       \<and> ST_timeout (optTimeout env) ms h = (EmptyFn, h)
       \<and> new_WatchDog (optTimeout env) cb sc tmo h =
           (\<lparr>callback = Some cb, hasScope = sc, timer = Some EmptyFn, timeout = tmo\<rparr>, h)"
proof (intro conjI allI impI)
  fix a
  assume "a \<in> set (events (add env idx entries w)) \<union> set_option (pendingEvent (add env idx entries w))"
    and "a \<notin> set (events w) \<union> set_option (pendingEvent w)"
  then show "ev_timeout (objs (add env idx entries w) a) = Some 0"
    using add_timeout0 [of env a idx entries w] z by (simp add: truthy_num_def)
next
  show "ST_timeout (optTimeout env) ms h = (EmptyFn, h)"
    using z by (simp add: ST_timeout_def)
next
  show "new_WatchDog (optTimeout env) cb sc tmo h =
           (\<lparr>callback = Some cb, hasScope = sc, timer = Some EmptyFn, timeout = tmo\<rparr>, h)"
    using z by (simp add: new_WatchDog_def wd_set_def wd_cancel_def ST_timeout_def)
qed

theorem global_timeout_zero_disables_timeouts_witness:
  "optTimeout env_notimeout = Some 0
   \<and> events (add env_notimeout None [click200] (new_Player False)) = [0]
   \<and> events (new_Player False) = [] \<and> pendingEvent (new_Player False) = None
   \<and> ev_timeout (objs (add env_notimeout None [click200] (new_Player False)) 0) = Some 0
   \<and> ST_timeout (optTimeout env_notimeout) (Some 200) host0 = (EmptyFn, host0)"
proof -
  have z: "optTimeout env_notimeout = Some 0" by (simp add: env_notimeout_def)
  have e: "events (add env_notimeout None [click200] (new_Player False)) = [0]"
    by code_simp
  have n: "events (new_Player False) = []" "pendingEvent (new_Player False) = None"
    by (simp_all add: new_Player_def)
  from global_timeout_zero_disables_timeouts [OF z, where idx = None
      and entries = "[click200]" and w = "new_Player False" and ms = "Some 200" and h = host0
      and cb = "0::nat" and sc = False and tmo = None] e n z
  show ?thesis by auto
qed

section \<open>The Block reports once\<close>

lemma new_WatchDog_live: "callback (fst (new_WatchDog opt cb sc tmo h)) = Some cb"
  by (simp add: new_WatchDog_def wd_set_def wd_cancel_def split: prod.splits)

lemma failure_frame:
  "hasDone (failure ex b) = hasDone b" "calling (failure ex b) = calling b"
  "blockPlaying (failure ex b) = blockPlaying b" "blockError (failure ex b) = blockError b"
  "hasWatchDog (failure ex b) = hasWatchDog b" "dogObj (failure ex b) = dogObj b"
  "blockHost (failure ex b) = blockHost b" "subscribed (failure ex b) = subscribed b"
  "stopped (failure ex b) = stopped b" "doneCalls (failure ex b) = doneCalls b"
  "propagated (failure ex b) = propagated b" "isAsync (failure ex b) = isAsync b"
  by (simp_all add: failure_def split: option.splits reported.splits err.splits)

lemma finish_clears: "\<not> hasDone (finish env b)"
  by (cases "wd_destroy (dogObj b, blockHost b)") (simp add: finish_def Let_def failure_frame)

lemma finish_inv:
  assumes "hasDone b" "doneCalls b = 0" "hasWatchDog b = (callback (dogObj b) \<noteq> None)"
    "subscribed b = blockPlaying b" "\<not> calling b" "propagated b = None"
  shows "block_inv env (finish env b)"
  using assms wd_destroy_dead [of "(dogObj b, blockHost b)"]
  by (cases "wd_destroy (dogObj b, blockHost b)")
     (simp add: block_inv_def finish_def Let_def failure_frame)

text \<open>A WatchDog operation that reports: the callback is gone afterwards.\<close>

lemma fire_result:
  "f = wd_done \<or> f = wd_fail e \<or> f = wd_onTick \<Longrightarrow>
   (snd (f wh) = None \<longrightarrow> callback (fst (fst (f wh))) = callback (fst wh))
   \<and> (snd (f wh) \<noteq> None \<longrightarrow> callback (fst wh) \<noteq> None \<and> callback (fst (fst (f wh))) = None)"
proof -
  assume f: "f = wd_done \<or> f = wd_fail e \<or> f = wd_onTick"
  have fire: "\<And>x wh. (snd (wd_fire x wh) = None \<longrightarrow>
                 callback (fst (fst (wd_fire x wh))) = callback (fst wh))
      \<and> (snd (wd_fire x wh) \<noteq> None \<longrightarrow>
            callback (fst wh) \<noteq> None \<and> callback (fst (fst (wd_fire x wh))) = None)"
    subgoal for x wh
      using wd_cancel_callback [of wh]
      by (cases "wd_cancel wh") (auto simp: wd_fire_def split: option.splits)
    done
  from f show ?thesis
  proof (elim disjE)
    assume "f = wd_done" then show ?thesis using fire [of Null wh] by (simp add: wd_done_def)
  next
    assume "f = wd_fail e" then show ?thesis using fire [of _ wh]
      by (simp add: wd_fail_def split: option.splits)
  next
    assume t: "f = wd_onTick"
    obtain w h where wh: "wh = (w, h)" by (cases wh)
    show ?thesis
    proof (cases "timer w")
      case None
      then show ?thesis using t wh by (simp add: wd_onTick_def)
    next
      case (Some tm)
      then show ?thesis using t wh fire [of _ "(w\<lparr>timer := None, timeout := None\<rparr>, h)"]
        by (simp add: wd_onTick_def Let_def)
    qed
  qed
qed

lemma onWatchDog_inv:
  assumes i: "hasDone b" "doneCalls b = 0" "callback (dogObj b) = None"
    "subscribed b = blockPlaying b" "calling b = (propagated b \<noteq> None)"
    "\<not> truthy_err (blockError b)" "propagated b \<noteq> None \<longrightarrow> \<not> blockPlaying b"
  shows "block_inv env (onWatchDog env x b)"
proof -
  let ?b1 = "b\<lparr>hasWatchDog := False\<rparr>"
  let ?b2 = "if x \<noteq> Null then failure (Some (Reported x)) ?b1 else ?b1"
  have r: "onWatchDog env x b = (if \<not> blockPlaying ?b2 \<and> \<not> calling ?b2 then finish env ?b2 else ?b2)"
    by (simp add: onWatchDog_def Let_def)
  show ?thesis
  proof (cases "\<not> blockPlaying b \<and> \<not> calling b")
    case True
    then have "onWatchDog env x b = finish env ?b2" using r by (simp add: failure_frame)
    moreover have "block_inv env (finish env ?b2)"
      using i True by (intro finish_inv) (auto simp: failure_frame)
    ultimately show ?thesis by simp
  next
    case False
    then have "onWatchDog env x b = ?b2" using r by (auto simp: failure_frame)
    moreover have "block_inv env ?b2"
      using i False by (auto simp: block_inv_def failure_frame)
    ultimately show ?thesis by simp
  qed
qed

lemma block_dog_inv:
  assumes f: "f = wd_done \<or> f = wd_fail e \<or> f = wd_onTick" and i: "block_inv env b"
  shows "block_inv env (block_dog env f b)"
proof -
  obtain wd h r where fr: "f (dogObj b, blockHost b) = ((wd, h), r)"
    by (cases "f (dogObj b, blockHost b)") auto
  from fire_result [OF f, of "(dogObj b, blockHost b)"] fr
  have same: "r = None \<Longrightarrow> callback wd = callback (dogObj b)"
    and fired: "r \<noteq> None \<Longrightarrow> callback (dogObj b) \<noteq> None \<and> callback wd = None" by auto
  let ?b1 = "b\<lparr>dogObj := wd, blockHost := h\<rparr>"
  show ?thesis
  proof (cases r)
    case None
    then have "block_dog env f b = ?b1" using fr by (simp add: block_dog_def)
    moreover have "block_inv env ?b1" using i same [OF None]
      by (auto simp: block_inv_def split: if_splits)
    ultimately show ?thesis by simp
  next
    case (Some ce)
    obtain c x where ce: "ce = (c, x)" by (cases ce)
    from fired Some have live: "callback (dogObj b) \<noteq> None" and dead: "callback wd = None" by auto
    from i live have hd: "hasDone b" by (auto simp: block_inv_def split: if_splits)
    have "block_dog env f b = onWatchDog env x ?b1" using fr Some ce by (simp add: block_dog_def)
    moreover have "block_inv env (onWatchDog env x ?b1)"
      using i hd dead by (intro onWatchDog_inv) (auto simp: block_inv_def)
    ultimately show ?thesis by simp
  qed
qed

lemma onEndPlay_inv:
  assumes i: "block_inv env b" and s: "subscribed b"
  shows "block_inv env (onEndPlay env (b\<lparr>subscribed := False\<rparr>))"
proof -
  from i s have p: "blockPlaying b" by (simp add: block_inv_def)
  with i have hd: "hasDone b" by (auto simp: block_inv_def split: if_splits)
  from i hd p have np: "propagated b = None" "\<not> calling b" "doneCalls b = 0"
    "\<not> truthy_err (blockError b)" by (auto simp: block_inv_def)
  let ?b1 = "b\<lparr>subscribed := False, blockPlaying := False\<rparr>"
  show ?thesis
  proof (cases "hasWatchDog b")
    case True
    then have "onEndPlay env (b\<lparr>subscribed := False\<rparr>) = ?b1" by (simp add: onEndPlay_def)
    moreover have "block_inv env ?b1" using i True hd np
      by (auto simp: block_inv_def split: if_splits)
    ultimately show ?thesis by simp
  next
    case False
    then have "onEndPlay env (b\<lparr>subscribed := False\<rparr>) = finish env ?b1"
      by (simp add: onEndPlay_def)
    moreover have "block_inv env (finish env ?b1)"
      using i hd np False by (intro finish_inv) (auto simp: block_inv_def)
    ultimately show ?thesis by simp
  qed
qed

lemma block_step_inv: "block_inv env b \<Longrightarrow> block_inv env (block_step env ev b)"
proof (cases ev)
  case EndPlay
  assume "block_inv env b"
  then show ?thesis using EndPlay onEndPlay_inv [of env b] by simp
next
  case DogDone
  assume "block_inv env b"
  then show ?thesis using DogDone block_dog_inv [of wd_done _ env b] by simp
next
  case (DogFail e)
  assume "block_inv env b"
  then show ?thesis using DogFail block_dog_inv [of "wd_fail e" e env b] by simp
next
  case DogTick
  assume "block_inv env b"
  then show ?thesis using DogTick block_dog_inv [of wd_onTick _ env b] by simp
qed

lemma block_run_inv: "block_inv env b \<Longrightarrow> block_inv env (block_run env es b)"
  by (induction es arbitrary: b) (simp_all add: block_step_inv)

lemma block_dog_call:
  assumes f: "f = wd_done \<or> f = wd_fail e \<or> f = wd_onTick" and i: "call_inv b"
  shows "call_inv (block_dog env f b) \<and> isAsync (block_dog env f b) = isAsync b"
proof -
  obtain wd h r where fr: "f (dogObj b, blockHost b) = ((wd, h), r)"
    by (cases "f (dogObj b, blockHost b)") auto
  from fire_result [OF f, of "(dogObj b, blockHost b)"] fr
  have same: "r = None \<Longrightarrow> callback wd = callback (dogObj b)"
    and fired: "r \<noteq> None \<Longrightarrow> callback (dogObj b) \<noteq> None \<and> callback wd = None" by auto
  show ?thesis
  proof (cases r)
    case None
    then show ?thesis using fr i same [OF None] by (simp add: block_dog_def call_inv_def)
  next
    case (Some ce)
    obtain c x where ce: "ce = (c, x)" by (cases ce)
    from fired Some have dead: "callback wd = None" by auto
    show ?thesis using fr Some ce i dead
      by (simp add: block_dog_def call_inv_def onWatchDog_def Let_def failure_frame)
  qed
qed

lemma run_acts_call:
  "call_inv b \<Longrightarrow> call_inv (fst (run_acts env as b)) \<and> isAsync (fst (run_acts env as b)) = isAsync b"
proof (induction as arbitrary: b)
  case Nil
  then show ?case by simp
next
  case (Cons a as)
  show ?case
  proof (cases "isAsync b")
    case False
    then show ?thesis using Cons.prems by simp
  next
    case True
    let ?b = "case a of BDone \<Rightarrow> block_dog env wd_done b | BFail e \<Rightarrow> block_dog env (wd_fail e) b"
    have "call_inv ?b \<and> isAsync ?b = isAsync b"
      using block_dog_call [of wd_done _ b env] block_dog_call [of "wd_fail e" e b env for e]
        Cons.prems by (cases a) auto
    with Cons.IH [of ?b] True show ?thesis by simp
  qed
qed

lemma finish_report:
  assumes "hasDone b" "blockError b = Some e" "e \<noteq> ErrFalsy"
  shows "results (finish env b) = results b @ [report e]"
    and "\<not> hasDone (finish env b)"
    and "doneCalls (finish env b) = (if recorder env then doneCalls b else Suc (doneCalls b))"
  using assms
  by (cases "wd_destroy (dogObj b, blockHost b)";
      cases e; simp add: finish_def Let_def failure_def report_def truthy_err_def
        truthy_reported_def)+

lemma call_result:
  assumes ra: "run_acts env (acts f) (b\<lparr>calling := True\<rparr>) = (b2, thrown)"
  shows "call env f b =
     (case (case thrown of None \<Rightarrow> throws f | Some e \<Rightarrow> Some e) of
        None \<Rightarrow> b2\<lparr>calling := False\<rparr>
      | Some e \<Rightarrow> if blockHandleExceptions env then b2\<lparr>blockError := Some e, calling := False\<rparr>
                  else b2\<lparr>propagated := Some e\<rparr>)"
  by (simp add: call_def ra)

lemma wrapperFn_inv:
  "block_inv env (wrapperFn env f player (new_Block async tmo))
   \<and> (propagated (wrapperFn env f player (new_Block async tmo)) = None
        \<and> hasDone (wrapperFn env f player (new_Block async tmo)) \<longrightarrow>
         blockPlaying (wrapperFn env f player (new_Block async tmo)) = ST_isPlayingEvents player)"
proof -
  let ?W = "wrapperFn env f player (new_Block async tmo)"
  define b1 where "b1 = (if isAsync ((new_Block async tmo)\<lparr>hasDone := True\<rparr>) then
       (case new_WatchDog (blockOptTimeout env) () True
               (blockTimeout ((new_Block async tmo)\<lparr>hasDone := True\<rparr>))
               (blockHost ((new_Block async tmo)\<lparr>hasDone := True\<rparr>)) of
          (wd, h) \<Rightarrow> (new_Block async tmo)\<lparr>hasDone := True\<rparr>\<lparr>dogObj := wd, blockHost := h,
              hasWatchDog := True\<rparr>)
       else (new_Block async tmo)\<lparr>hasDone := True\<rparr>)"
  define c where "c = call env f b1"
  define b3 where "b3 = (if ST_isPlayingEvents player
       then c\<lparr>blockPlaying := True, subscribed := True\<rparr> else c)"
  have w: "?W =
      (if propagated c \<noteq> None then c
       else if truthy_err (blockError b3) \<or> (\<not> blockPlaying b3 \<and> \<not> hasWatchDog b3)
            then finish env b3 else b3)"
    by (simp only: wrapperFn_def invoke_def b1_def c_def b3_def Let_def)
  have c1: "call_inv (b1\<lparr>calling := True\<rparr>)"
    using new_WatchDog_live [of "blockOptTimeout env" "()" True tmo host0]
    by (cases "new_WatchDog (blockOptTimeout env) () True tmo host0")
       (simp add: b1_def call_inv_def new_Block_def)
  obtain b2 thrown where ra: "run_acts env (acts f) (b1\<lparr>calling := True\<rparr>) = (b2, thrown)"
    by (cases "run_acts env (acts f) (b1\<lparr>calling := True\<rparr>)")
  from run_acts_call [OF c1, of env "acts f"] ra have c2: "call_inv b2" by simp
  let ?t = "case thrown of None \<Rightarrow> throws f | Some e \<Rightarrow> Some e"
  note cr = call_result [OF ra, folded c_def]
  have returned: "block_inv env ?W \<and> (propagated ?W = None \<and> hasDone ?W \<longrightarrow>
         blockPlaying ?W = ST_isPlayingEvents player)"
    if c: "c = b2\<lparr>blockError := x, calling := False\<rparr>" and x: "\<not> truthy_err x" for x
  proof (cases "\<not> blockPlaying b3 \<and> \<not> hasWatchDog b3")
    case True
    then have e: "?W = finish env b3"
      using w c c2 by (simp add: call_inv_def b3_def)
    have "block_inv env (finish env b3)"
      using c2 c by (intro finish_inv) (auto simp: call_inv_def b3_def)
    then show ?thesis unfolding e using finish_clears [of env b3] by simp
  next
    case False
    then have e: "?W = b3"
      using w c c2 x by (auto simp: call_inv_def b3_def)
    have "block_inv env b3"
      using c2 c x False by (auto simp: call_inv_def block_inv_def b3_def split: if_splits)
    moreover have "blockPlaying b3 = ST_isPlayingEvents player"
      using c2 c by (simp add: call_inv_def b3_def)
    ultimately show ?thesis unfolding e by simp
  qed
  show ?thesis
  proof (cases ?t)
    case None
    then have "c = b2\<lparr>calling := False\<rparr>" using cr by simp
    moreover have "blockError b2 = None" using c2 by (simp add: call_inv_def)
    ultimately have "c = b2\<lparr>blockError := None, calling := False\<rparr>" by simp
    then show ?thesis by (rule returned) (simp add: truthy_err_def)
  next
    case (Some e)
    show ?thesis
    proof (cases "blockHandleExceptions env")
      case False
      then have c: "c = b2\<lparr>propagated := Some e\<rparr>" using cr Some by simp
      then have e: "?W = c" using w by simp
      have "block_inv env c"
        using c2 c by (auto simp: call_inv_def block_inv_def truthy_err_def)
      then show ?thesis unfolding e using c by simp
    next
      case True
      then have c: "c = b2\<lparr>blockError := Some e, calling := False\<rparr>" using cr Some by simp
      show ?thesis
      proof (cases "truthy_err (Some e)")
        case False
        with c show ?thesis by (intro returned)
      next
        case t: True
        have e: "?W = finish env b3"
          using w c c2 t by (auto simp: call_inv_def b3_def)
        have "block_inv env (finish env b3)"
          using c2 c by (intro finish_inv) (auto simp: call_inv_def b3_def)
        then show ?thesis unfolding e using finish_clears [of env b3] by simp
      qed
    qed
  qed
qed

lemma wrapperFn_thrown:
  assumes h: "blockHandleExceptions env" and t: "throws f = Some e" and a: "acts f = []"
    and tr: "e \<noteq> ErrFalsy"
  shows "results (wrapperFn env f player (new_Block async tmo)) = [report e]"
    and "\<not> hasDone (wrapperFn env f player (new_Block async tmo))"
    and "doneCalls (wrapperFn env f player (new_Block async tmo)) = (if recorder env then 0 else 1)"
proof -
  let ?b0 = "(new_Block async tmo)\<lparr>hasDone := True\<rparr>"
  let ?b1 = "if isAsync ?b0 then
                  (case new_WatchDog (blockOptTimeout env) () True (blockTimeout ?b0) (blockHost ?b0) of
                     (wd, h) \<Rightarrow> ?b0\<lparr>dogObj := wd, blockHost := h, hasWatchDog := True\<rparr>)
                else ?b0"
  let ?b2 = "?b1\<lparr>blockError := Some e, calling := False\<rparr>"
  let ?b3 = "if ST_isPlayingEvents player then ?b2\<lparr>blockPlaying := True, subscribed := True\<rparr> else ?b2"
  have te: "truthy_err (Some e)" using tr by (cases e) (simp_all add: truthy_err_def)
  have w: "wrapperFn env f player (new_Block async tmo) = finish env ?b3"
    using h t a te
    by (cases "new_WatchDog (blockOptTimeout env) () True tmo host0")
       (simp add: wrapperFn_def invoke_def call_def Let_def new_Block_def)
  have p: "hasDone ?b3" "blockError ?b3 = Some e" "results ?b3 = []" "doneCalls ?b3 = 0"
    by (cases "new_WatchDog (blockOptTimeout env) () True tmo host0";
        simp add: new_Block_def)+
  show "results (wrapperFn env f player (new_Block async tmo)) = [report e]"
    unfolding w using finish_report(1) [OF p(1,2) tr, of env] p(3) by simp
  show "\<not> hasDone (wrapperFn env f player (new_Block async tmo))"
    unfolding w using finish_report(2) [OF p(1,2) tr, of env] by simp
  show "doneCalls (wrapperFn env f player (new_Block async tmo)) = (if recorder env then 0 else 1)"
    unfolding w using finish_report(3) [OF p(1,2) tr, of env] p(4) by simp
qed

text \<open>A thrown falsy value is stored but counts neither as an error nor as a failure.\<close>

lemma wrapperFn_thrown_falsy:
  assumes h: "blockHandleExceptions env" and t: "throws f = Some ErrFalsy" and a: "acts f = []"
  shows "results (wrapperFn env f player (new_Block async tmo)) = []"
    and "hasDone (wrapperFn env f player (new_Block async tmo))
           = (async \<or> ST_isPlayingEvents player)"
    and "doneCalls (wrapperFn env f player (new_Block async tmo))
           = (if async \<or> ST_isPlayingEvents player \<or> recorder env then 0 else 1)"
  using h t a
  by (cases "new_WatchDog (blockOptTimeout env) () True tmo host0";
      simp add: wrapperFn_def invoke_def call_def Let_def new_Block_def truthy_err_def
        finish_def failure_def wd_destroy_def wd_cancel_def split: option.splits)+

lemma done_call_guard:
  "doneCalls (block_step env ev b) \<noteq> doneCalls b \<Longrightarrow>
     (ev = EndPlay \<and> \<not> hasWatchDog b) \<or> (ev \<noteq> EndPlay \<and> \<not> blockPlaying b)"
proof (cases ev)
  case EndPlay
  assume "doneCalls (block_step env ev b) \<noteq> doneCalls b"
  then show ?thesis using EndPlay by (auto simp: onEndPlay_def Let_def split: if_splits)
next
  case DogDone
  assume "doneCalls (block_step env ev b) \<noteq> doneCalls b"
  then show ?thesis using DogDone
    by (auto simp: block_dog_def onWatchDog_def Let_def failure_frame
        split: prod.splits option.splits if_splits)
next
  case (DogFail e)
  assume "doneCalls (block_step env ev b) \<noteq> doneCalls b"
  then show ?thesis using DogFail
    by (auto simp: block_dog_def onWatchDog_def Let_def failure_frame
        split: prod.splits option.splits if_splits)
next
  case DogTick
  assume "doneCalls (block_step env ev b) \<noteq> doneCalls b"
  then show ?thesis using DogTick
    by (auto simp: block_dog_def onWatchDog_def Let_def failure_frame
        split: prod.splits option.splits if_splits)
qed

text \<open>
  C5, amended. After \<open>wrapperFn\<close> and any sequence of later events (the Player's \<open>end\<close>,
  \<open>done\<close>, \<open>done.fail\<close>, the deadline), the framework's callback has been called once if
  the Block has finished and no event recorder is running, and never otherwise. The
  Block is unfinished exactly when an exception left \<open>invoke\<close>, or no truthy error was
  caught and the WatchDog is outstanding or the Block is waiting for the Player's \<open>end\<close>.
  An event that makes the call is the Player's \<open>end\<close> with no WatchDog outstanding, or
  a WatchDog report while the Block is not waiting for \<open>end\<close>. The Block waits for \<open>end\<close>
  exactly when the Player's queue \<open>events\<close> was not empty when the user function had
  returned. With exception handling enabled, a user function that throws a truthy value
  is reported at once and the Block finishes in \<open>wrapperFn\<close>; a thrown falsy value is
  not reported, and the Block goes on as if the function had returned.
\<close>

theorem block_done_once:
  "(let b = block_run env es (wrapperFn env f player (new_Block async tmo))
    in doneCalls b = (if hasDone b \<or> recorder env then 0 else 1)
       \<and> hasDone b = (propagated b \<noteq> None
                       \<or> (\<not> truthy_err (blockError b) \<and> (hasWatchDog b \<or> blockPlaying b)))
       \<and> (doneCalls (block_step env ev b) \<noteq> doneCalls b \<longrightarrow>
             (ev = EndPlay \<and> \<not> hasWatchDog b) \<or> (ev \<noteq> EndPlay \<and> \<not> blockPlaying b)))
   \<and> (propagated (wrapperFn env f player (new_Block async tmo)) = None
        \<and> hasDone (wrapperFn env f player (new_Block async tmo)) \<longrightarrow>
         blockPlaying (wrapperFn env f player (new_Block async tmo)) = ST_isPlayingEvents player)
   \<and> (blockHandleExceptions env \<and> throws f = Some e \<and> acts f = [] \<and> e \<noteq> ErrFalsy \<longrightarrow>
         results (wrapperFn env f player (new_Block async tmo)) = [report e]
         \<and> \<not> hasDone (wrapperFn env f player (new_Block async tmo))
         \<and> doneCalls (wrapperFn env f player (new_Block async tmo))
             = (if recorder env then 0 else 1))
   \<and> (blockHandleExceptions env \<and> throws f = Some ErrFalsy \<and> acts f = [] \<longrightarrow>
         results (wrapperFn env f player (new_Block async tmo)) = []
         \<and> hasDone (wrapperFn env f player (new_Block async tmo))
             = (async \<or> ST_isPlayingEvents player))"
proof -
  let ?b = "block_run env es (wrapperFn env f player (new_Block async tmo))"
  have i: "block_inv env ?b"
    by (rule block_run_inv [OF conjunct1 [OF wrapperFn_inv]])
  have 1: "doneCalls ?b = (if hasDone ?b \<or> recorder env then 0 else 1)"
    using i by (auto simp: block_inv_def split: if_splits)
  have 2: "hasDone ?b = (propagated ?b \<noteq> None
                       \<or> (\<not> truthy_err (blockError ?b) \<and> (hasWatchDog ?b \<or> blockPlaying ?b)))"
    using i by (auto simp: block_inv_def split: if_splits)
  have 3: "doneCalls (block_step env ev ?b) \<noteq> doneCalls ?b \<longrightarrow>
             (ev = EndPlay \<and> \<not> hasWatchDog ?b) \<or> (ev \<noteq> EndPlay \<and> \<not> blockPlaying ?b)"
    using done_call_guard [of env ev ?b] by blast
  have 4: "blockHandleExceptions env \<and> throws f = Some e \<and> acts f = [] \<and> e \<noteq> ErrFalsy \<longrightarrow>
         results (wrapperFn env f player (new_Block async tmo)) = [report e]
         \<and> \<not> hasDone (wrapperFn env f player (new_Block async tmo))
         \<and> doneCalls (wrapperFn env f player (new_Block async tmo))
             = (if recorder env then 0 else 1)"
    using wrapperFn_thrown [of env f e player async tmo] by blast
  have 5: "blockHandleExceptions env \<and> throws f = Some ErrFalsy \<and> acts f = [] \<longrightarrow>
         results (wrapperFn env f player (new_Block async tmo)) = []
         \<and> hasDone (wrapperFn env f player (new_Block async tmo))
             = (async \<or> ST_isPlayingEvents player)"
    using wrapperFn_thrown_falsy(1,2) [of env f player async tmo] by blast
  note 6 = conjunct2 [OF wrapperFn_inv [of env f player async tmo]]
  show ?thesis unfolding Let_def using 1 2 3 4 5 6 by blast
qed

lemmas block_eval = wrapperFn_def invoke_def call_def new_Block_def finish_def failure_def
  Let_def ST_isPlayingEvents_def benv_def benv_recording_def fn_plain_def fn_throwing_def
  onEndPlay_def onWatchDog_def block_dog_def wd_done_def wd_fire_def wd_cancel_def
  wd_destroy_def new_WatchDog_def wd_set_def ST_timeout_def ST_doTimeout_def ST_defer_def
  host0_def report_def truthy_err_def truthy_reported_def wd_onTick_def wd_fail_def
  ST_deferCancel_def truthy_num_def

text \<open>
  C5, as stated, fails while the event recorder is running: a synchronous user function
  with no Player engaged meets both conditions, the Block finishes (\<open>_done\<close> is
  cleared), and the framework's callback is not called.
\<close>

theorem recorder_blocks_done_counterexample:
  "\<not> hasWatchDog (wrapperFn benv_recording fn_plain None (new_Block False None))
   \<and> \<not> blockPlaying (wrapperFn benv_recording fn_plain None (new_Block False None))
   \<and> \<not> hasDone (wrapperFn benv_recording fn_plain None (new_Block False None))
   \<and> doneCalls (wrapperFn benv_recording fn_plain None (new_Block False None)) = 0"
  by (simp add: block_eval)


section \<open>Evaluating the Player\<close>

lemma new_Player_sel:
  "events (new_Player gq) = []" "pendingEvent (new_Player gq) = None"
  "pendingFn (new_Player gq) = None" "paused (new_Player gq) = 0"
  "eventTimer (new_Player gq) = 0" "nextId (new_Player gq) = 1" "active (new_Player gq) = False"
  "player_timeout (new_Player gq) = None" "eventDelay (new_Player gq) = None"
  "typingDelay (new_Player gq) = None" "pauseForAnimations (new_Player gq) = True"
  "visualFeedback (new_Player gq) = True" "waitInterval (new_Player gq) = 10"
  "touchCount (new_Player gq) = 0" "lastGestureEndTime (new_Player gq) = 0"
  "objs (new_Player gq) = (\<lambda>a. Playable0)" "nextObj (new_Player gq) = 0"
  "els (new_Player gq) = (\<lambda>e. 0)" "nextEl (new_Player gq) = 0" "hostq (new_Player gq) = host0"
  "timerAct (new_Player gq) = (\<lambda>t. TNothing)" "dogFailed (new_Player gq) = (\<lambda>d. False)"
  "nextDog (new_Player gq) = 0" "gestureQueue (new_Player gq) = gq"
  "gestureActive (new_Player gq) = False" "trace (new_Player gq) = []"
  "hung (new_Player gq) = False"
  by (simp_all add: new_Player_def)

lemma Playable0_sel:
  "ptype Playable0 = None" "target Playable0 = TUndef" "relatedTarget Playable0 = TUndef"
  "targetEl Playable0 = None" "relatedEl Playable0 = None" "relatedTargetEl Playable0 = None"
  "fn Playable0 = None" "delay Playable0 = None" "animation Playable0 = None"
  "visible Playable0 = Dflt" "available Playable0 = Dflt" "ev_timeout Playable0 = None"
  "hasPlayer Playable0 = False" "pid Playable0 = 0" "state Playable0 = ''init''"
  "waitStartTime Playable0 = 0" "waitingFor Playable0 = None" "waitingState Playable0 = None"
  "ready Playable0 = ReadyDefault" "ev_x Playable0 = None" "ev_y Playable0 = None"
  "metaKey Playable0 = None" "shiftKey Playable0 = None" "ctrlKey Playable0 = None"
  "button Playable0 = None" "detail Playable0 = None" "key Playable0 = None"
  "etext Playable0 = None" "caret Playable0 = None"
  by (simp_all add: Playable0_def)

lemma env0_sel:
  "optTimeout env0 = Some 5000" "handleExceptions env0 = True" "optEventDelay env0 = None"
  "optTypingDelay env0 = None" "optVisualFeedback env0 = True"
  "prog env0 = (\<lambda>k. \<lparr>arity = 0, body = [], outcome = Returns\<rparr>)"
  "now env0 = 1000" "later env0 = 1000" "ST_find env0 = (\<lambda>t. Some 1)"
  "isVisible env0 = (\<lambda>n. True)" "isDetached env0 = (\<lambda>n. False)" "animating env0 = False"
  "customReady env0 = (\<lambda>k. RTrue)" "gestureComplete env0 = (\<lambda>i. True)"
  by (simp_all add: env0_def)

lemmas start_add_defs = add_def insertIndex_def advanceMarker_def add_entry_def
      add_target_def add_relatedTarget_def add_defaults_def upd_def playIfIdle_def Let_def
      truthy_num_def truthy_str_def start_def playNext_def
      playEventSoon_def ST_defer_def host0_def onEnd_def emit_def
      new_Player_sel Playable0_sel env0_sel

lemma w_cb2_sel:
  "events w_cb2 = [1]" "pendingEvent w_cb2 = Some 0" "pendingFn w_cb2 = None" "paused w_cb2 = 0"
  "hung w_cb2 = False" "trace w_cb2 = []" "nextObj w_cb2 = 2" "nextDog w_cb2 = 0"
  "armed (hostq w_cb2) = [1]" "timerAct w_cb2 (Suc 0) = TPlayEvent 0 0" "eventTimer w_cb2 = 1"
  "fn (objs w_cb2 0) = Some (UserFn 0)" "ready (objs w_cb2 0) = ReadyDefault"
  "target (objs w_cb2 0) = TUndef" "relatedTarget (objs w_cb2 0) = TUndef"
  "state (objs w_cb2 0) = ''pending''" "state (objs w_cb2 1) = ''queued''"
  "ev_timeout (objs w_cb2 0) = Some 5000" "active w_cb2 = True"
  by (simp_all add: w_cb2_def start_add_defs)

text \<open>The Block at concrete inputs.\<close>

lemma play_nothing_sel:
  "events (ST_play env0 [] (new_Player False)) = []"
  "pendingEvent (ST_play env0 [] (new_Player False)) = Some 0"
  "trace (ST_play env0 [] (new_Player False)) = []"
  by (simp_all add: ST_play_def start_add_defs)

theorem block_done_once_witness:
  "results (wrapperFn benv fn_throwing None (new_Block False None))
        = [Failed (Thrown (Err ''boom''))]
   \<and> doneCalls (block_run benv [DogDone] (wrapperFn benv fn_throwing None (new_Block False None))) = 1
   \<and> blockPlaying (wrapperFn benv fn_plain (Some w_cb2) (new_Block True None))
   \<and> doneCalls (block_run benv [DogDone] (wrapperFn benv fn_plain (Some w_cb2) (new_Block True None)))
        = 0
   \<and> \<not> hasWatchDog (block_run benv [DogDone]
            (wrapperFn benv fn_plain (Some w_cb2) (new_Block True None)))
   \<and> doneCalls (block_run benv [DogDone, EndPlay]
          (wrapperFn benv fn_plain (Some w_cb2) (new_Block True None))) = 1
   \<and> doneCalls (block_run benv [DogDone, EndPlay, DogDone, EndPlay, DogTick]
          (wrapperFn benv fn_plain (Some w_cb2) (new_Block True None))) = 1
   \<and> results (wrapperFn benv fn_falsy None (new_Block True None)) = []
   \<and> hasDone (wrapperFn benv fn_falsy None (new_Block True None))
   \<and> pendingEvent (ST_play env0 [] (new_Player False)) = Some 0
   \<and> \<not> blockPlaying (wrapperFn benv fn_plain (Some (ST_play env0 [] (new_Player False)))
            (new_Block False None))
   \<and> doneCalls (wrapperFn benv fn_plain (Some (ST_play env0 [] (new_Player False)))
          (new_Block False None)) = 1"
proof -
  have h: "blockHandleExceptions benv" "throws fn_throwing = Some (Err ''boom'')"
    "acts fn_throwing = []" "\<not> recorder benv" "throws fn_falsy = Some ErrFalsy"
    "acts fn_falsy = []"
    by (simp_all add: benv_def fn_throwing_def fn_falsy_def)
  have r: "report (Err ''boom'') = Failed (Thrown (Err ''boom''))" by (simp add: report_def)
  have q: "ST_isPlayingEvents (Some w_cb2)" "ST_isPlayingEvents None = False"
    "ST_isPlayingEvents (Some (ST_play env0 [] (new_Player False))) = False"
    by (simp_all add: ST_isPlayingEvents_def w_cb2_sel play_nothing_sel)
  let ?A = "wrapperFn benv fn_throwing None (new_Block False None)"
  let ?B = "wrapperFn benv fn_plain (Some w_cb2) (new_Block True None)"
  let ?C = "wrapperFn benv fn_falsy None (new_Block True None)"
  let ?D = "wrapperFn benv fn_plain (Some (ST_play env0 [] (new_Player False))) (new_Block False None)"
  note a = block_done_once [of benv "[DogDone]" fn_throwing None False None EndPlay "Err ''boom''",
      unfolded Let_def]
  have a1: "doneCalls (block_run benv [DogDone] ?A)
              = (if hasDone (block_run benv [DogDone] ?A) \<or> recorder benv then 0 else 1)"
    by (rule conjunct1 [OF conjunct1 [OF a]])
  have a2: "hasDone (block_run benv [DogDone] ?A)
              = (propagated (block_run benv [DogDone] ?A) \<noteq> None
                 \<or> (\<not> truthy_err (blockError (block_run benv [DogDone] ?A))
                    \<and> (hasWatchDog (block_run benv [DogDone] ?A)
                       \<or> blockPlaying (block_run benv [DogDone] ?A))))"
    by (rule conjunct1 [OF conjunct2 [OF conjunct1 [OF a]]])
  have a4: "blockHandleExceptions benv \<and> throws fn_throwing = Some (Err ''boom'')
       \<and> acts fn_throwing = [] \<and> Err ''boom'' \<noteq> ErrFalsy \<longrightarrow>
         results ?A = [report (Err ''boom'')] \<and> \<not> hasDone ?A
         \<and> doneCalls ?A = (if recorder benv then 0 else 1)"
    by (rule conjunct1 [OF conjunct2 [OF conjunct2 [OF a]]])
  have ea: "truthy_err (blockError (block_run benv [DogDone] ?A))"
    "propagated (block_run benv [DogDone] ?A) = None"
    by (simp_all add: block_eval)
  from a4 h have 1: "results ?A = [Failed (Thrown (Err ''boom''))]" by (simp add: r)
  from a1 a2 ea h(4) have 2: "doneCalls (block_run benv [DogDone] ?A) = 1" by simp
  note b = block_done_once [of benv "[DogDone]" fn_plain "Some w_cb2" True None EndPlay
      "Err ''boom''", unfolded Let_def]
  note b' = block_done_once [of benv "[DogDone, EndPlay]" fn_plain "Some w_cb2" True None EndPlay
      "Err ''boom''", unfolded Let_def]
  note b'' = block_done_once [of benv "[DogDone, EndPlay, DogDone, EndPlay, DogTick]" fn_plain
      "Some w_cb2" True None EndPlay "Err ''boom''", unfolded Let_def]
  have b5: "propagated ?B = None \<and> hasDone ?B \<longrightarrow> blockPlaying ?B = ST_isPlayingEvents (Some w_cb2)"
    by (rule conjunct1 [OF conjunct2 [OF b]])
  have eb: "propagated ?B = None" "hasDone ?B"
    by (simp_all add: block_eval w_cb2_sel play_nothing_sel)
  from b5 eb q(1) have 3: "blockPlaying ?B" by simp
  have b1: "doneCalls (block_run benv [DogDone] ?B)
              = (if hasDone (block_run benv [DogDone] ?B) \<or> recorder benv then 0 else 1)"
    by (rule conjunct1 [OF conjunct1 [OF b]])
  have b3: "doneCalls (block_step benv EndPlay (block_run benv [DogDone] ?B))
              \<noteq> doneCalls (block_run benv [DogDone] ?B) \<longrightarrow>
            (EndPlay = EndPlay \<and> \<not> hasWatchDog (block_run benv [DogDone] ?B))
            \<or> (EndPlay \<noteq> EndPlay \<and> \<not> blockPlaying (block_run benv [DogDone] ?B))"
    by (rule conjunct2 [OF conjunct2 [OF conjunct1 [OF b]]])
  have eb1: "hasDone (block_run benv [DogDone] ?B)"
    "\<not> hasDone (block_run benv [DogDone, EndPlay] ?B)"
    "\<not> hasDone (block_run benv [DogDone, EndPlay, DogDone, EndPlay, DogTick] ?B)"
    by (simp_all add: block_eval w_cb2_sel play_nothing_sel)
  from b1 eb1(1) have 4: "doneCalls (block_run benv [DogDone] ?B) = 0" by simp
  have b1': "doneCalls (block_run benv [DogDone, EndPlay] ?B)
              = (if hasDone (block_run benv [DogDone, EndPlay] ?B) \<or> recorder benv then 0 else 1)"
    by (rule conjunct1 [OF conjunct1 [OF b']])
  from b1' eb1(2) h(4) have 6: "doneCalls (block_run benv [DogDone, EndPlay] ?B) = 1" by simp
  have s: "block_step benv EndPlay (block_run benv [DogDone] ?B)
             = block_run benv [DogDone, EndPlay] ?B" by simp
  from b3 4 6 have 5: "\<not> hasWatchDog (block_run benv [DogDone] ?B)" unfolding s by simp
  have b1'': "doneCalls (block_run benv [DogDone, EndPlay, DogDone, EndPlay, DogTick] ?B)
              = (if hasDone (block_run benv [DogDone, EndPlay, DogDone, EndPlay, DogTick] ?B)
                    \<or> recorder benv then 0 else 1)"
    by (rule conjunct1 [OF conjunct1 [OF b'']])
  from b1'' eb1(3) h(4)
  have 7: "doneCalls (block_run benv [DogDone, EndPlay, DogDone, EndPlay, DogTick] ?B) = 1"
    by simp
  note c = block_done_once [of benv "[]" fn_falsy None True None EndPlay ErrFalsy,
      unfolded Let_def]
  have c6: "blockHandleExceptions benv \<and> throws fn_falsy = Some ErrFalsy \<and> acts fn_falsy = []
      \<longrightarrow> results ?C = [] \<and> hasDone ?C = (True \<or> ST_isPlayingEvents None)"
    by (rule conjunct2 [OF conjunct2 [OF conjunct2 [OF c]]])
  from c6 h have 8: "results ?C = []" and 9: "hasDone ?C" by simp_all
  note d = block_done_once [of benv "[]" fn_plain "Some (ST_play env0 [] (new_Player False))"
      False None EndPlay ErrFalsy, unfolded Let_def]
  have d1: "doneCalls (block_run benv [] ?D)
              = (if hasDone (block_run benv [] ?D) \<or> recorder benv then 0 else 1)"
    by (rule conjunct1 [OF conjunct1 [OF d]])
  have ed: "\<not> hasDone ?D" "\<not> blockPlaying ?D"
    by (simp_all add: block_eval w_cb2_sel play_nothing_sel)
  from d1 ed h(4) have 12: "doneCalls ?D = 1" by simp
  show ?thesis
    using 1 2 3 4 5 6 7 8 9 play_nothing_sel(2) ed(2) 12 by simp
qed

lemma step_event_timer:
  assumes "tid \<in> set (armed (hostq w))" "timerAct w tid = TPlayEvent a d" "\<not> hung w"
  shows "step env (TimerFires tid) w =
           playEvent env a (w\<lparr>hostq := ST_deferCancel tid (hostq w), eventTimer := 0\<rparr>)"
  using assms by (simp add: step_def Let_def)


lemma isReady_plain:
  assumes "ready (objs w a) = ReadyDefault" "target (objs w a) = TUndef"
    "relatedTarget (objs w a) = TUndef" "\<not> animating env"
  shows "isReady env a w = (Inr True, upd a (\<lambda>p. p\<lparr>waitingFor := None, waitingState := None\<rparr>) w)"
  using assms
  by (simp add: isReady_def call_ready_def ready_default_def animationsDone_def targetReady_def
      not_waiting_def upd_def Let_def)


lemma playEvent_callback:
  assumes "ready (objs w a) = ReadyDefault" "target (objs w a) = TUndef"
    "relatedTarget (objs w a) = TUndef" "\<not> animating env" "fn (objs w a) = Some f"
  shows "playEvent env a w =
           playFn env a f
             (upd a (\<lambda>p. p\<lparr>state := ''playing''\<rparr>)
                (upd a (\<lambda>p. p\<lparr>waitingFor := None, waitingState := None\<rparr>) w))"
  using assms by (simp add: playEvent_def isReady_plain Let_def upd_def)

lemma playFn_pause_requeues:
  assumes b: "script env f = \<lparr>arity = 0, body = [APause], outcome = Returns\<rparr>"
    and p: "pendingEvent w = Some a" and h: "\<not> hung w"
  shows "events (playFn env a f w) = a # events w"
    and "trace (playFn env a f w) = trace w @ [Called a f]"
    and "paused (playFn env a f w) = Suc (paused w)"
    and "pendingEvent (playFn env a f w) = None"
    and "state (objs (playFn env a f w) a) = ''done''"
  using p h
  by (simp_all add: playFn_def enterFn_def leaveFn_def Let_def b new_WatchDog_def wd_set_def wd_cancel_def ST_timeout_def
      ST_doTimeout_def ST_defer_def emit_def pause_def cancelEventTimer_def upd_def
      dog_apply_def wd_done_def wd_fire_def dog_callback_def playNext_def ST_deferCancel_def
      split: prod.splits option.splits)

lemma env_pause_sel:
  "script env_pause (UserFn k) = \<lparr>arity = 0, body = [APause], outcome = Returns\<rparr>"
  "animating env_pause = False"
  by (simp_all add: env_pause_def script_def env0_def)

text \<open>
  C8 at the failing input: a callback playable whose function calls \<open>pause\<close> before it
  enqueues anything. Two callbacks are queued and the first is pending; when its timer
  fires, its function runs with the marker \<open>pendingFn = 0\<close>, which \<open>!me.pendingFn\<close> does
  not tell from \<open>false\<close>: the pending event is put back at the head of the queue
  although \<open>pause\<close> was called from its own callback.
\<close>

theorem pause_inside_callback_requeues:
  "pendingEvent w_cb2 = Some 0 \<and> events w_cb2 = [1]
   \<and> fn (objs w_cb2 0) = Some (UserFn 0)
   \<and> events (step env_pause (TimerFires 1) w_cb2) = [0, 1]
   \<and> paused (step env_pause (TimerFires 1) w_cb2) = 1
   \<and> trace (step env_pause (TimerFires 1) w_cb2) = [Called 0 (UserFn 0)]"
proof -
  let ?w = "w_cb2\<lparr>hostq := ST_deferCancel 1 (hostq w_cb2), eventTimer := 0\<rparr>"
  let ?w1 = "upd 0 (\<lambda>p. p\<lparr>waitingFor := None, waitingState := None\<rparr>) ?w"
  let ?w2 = "upd 0 (\<lambda>p. p\<lparr>state := ''playing''\<rparr>) ?w1"
  have s: "step env_pause (TimerFires 1) w_cb2 = playEvent env_pause 0 ?w"
    by (rule step_event_timer [where d = 0]) (simp_all add: w_cb2_sel)
  have p: "playEvent env_pause 0 ?w = playFn env_pause 0 (UserFn 0) ?w2"
    by (rule playEvent_callback) (simp_all add: w_cb2_sel env_pause_sel)
  have pe: "pendingEvent ?w2 = Some 0" "\<not> hung ?w2" "events ?w2 = [1]" "trace ?w2 = []"
    "paused ?w2 = 0"
    by (simp_all add: upd_def w_cb2_sel)
  note q = playFn_pause_requeues [OF env_pause_sel(1) pe(1) pe(2)]
  show ?thesis
    unfolding s p using q pe by (simp add: w_cb2_sel)
qed

lemma pushed_split: "pushed (e # es) n = pushed [e] n @ pushed es (nextAfter [e] n)"
  by (cases e) simp_all

lemma nextAfter_split: "nextAfter (e # es) n = nextAfter es (nextAfter [e] n)"
  by (cases e) simp_all

lemma add_target_nextObj: "nextObj (add_target q a w) = nextObj w"
  by (cases "target (objs w a)") (simp_all add: add_target_def upd_def)

lemma add_relatedTarget_nextObj: "nextObj (add_relatedTarget q a w) = nextObj w"
  by (cases "relatedTarget (objs w a)") (simp_all add: add_relatedTarget_def upd_def)

lemma add_entry_pushed:
  "fst (add_entry env e (q, w)) = q @ pushed [e] (nextObj w)
   \<and> nextObj (snd (add_entry env e (q, w))) = nextAfter [e] (nextObj w)"
  by (cases e)
     (simp_all add: add_entry_def Let_def upd_def add_target_nextObj add_relatedTarget_nextObj)

lemma add_loop_pushed:
  "fst (add_loop env es (q, w)) = q @ pushed es (nextObj w)
   \<and> nextObj (snd (add_loop env es (q, w))) = nextAfter es (nextObj w)"
proof (induction es arbitrary: q w)
  case Nil
  show ?case by simp
next
  case (Cons e es)
  obtain q1 w1 where s: "add_entry env e (q, w) = (q1, w1)" by (cases "add_entry env e (q, w)")
  from add_entry_pushed [of env e q w] s
  have 1: "q1 = q @ pushed [e] (nextObj w)" "nextObj w1 = nextAfter [e] (nextObj w)" by simp_all
  from Cons.IH [of q1 w1] 1 s show ?case
    by (simp add: pushed_split [of e es] nextAfter_split [of e es])
qed

text \<open>\<open>add\<close> without an index while an event is pending and the marker is a number.\<close>

lemma add_busy:
  assumes p: "pendingEvent w = Some c" and m: "pendingFn w = Some k"
  shows "events (add env None es w) = take k (events w) @ pushed es (nextObj w) @ drop k (events w)"
    and "pendingFn (add env None es w) = Some (k + length es)"
    and "pendingEvent (add env None es w) = Some c"
    and "nextObj (add env None es w) = nextAfter es (nextObj w)"
    and "dogs (add env None es w) = dogs w" and "dogFailed (add env None es w) = dogFailed w"
    and "hostq (add env None es w) = hostq w" and "trace (add env None es w) = trace w"
    and "hung (add env None es w) = hung w" and "paused (add env None es w) = paused w"
proof -
  have i: "insertIndex None w = k" using m by (simp add: insertIndex_def)
  let ?w1 = "advanceMarker None (length es) w"
  have w1: "?w1 = w\<lparr>pendingFn := Some (k + length es)\<rparr>" using m by (simp add: advanceMarker_def)
  obtain q1 w2 where l: "add_loop env es (take k (events w), ?w1) = (q1, w2)"
    by (cases "add_loop env es (take k (events w), ?w1)")
  from add_loop_pushed [of env es "take k (events w)" ?w1] l
  have q1: "q1 = take k (events w) @ pushed es (nextObj w)"
    and n2: "nextObj w2 = nextAfter es (nextObj w)" by (simp_all add: w1)
  have sp: "same_player ?w1 w2" using same_player_add_loop [of ?w1 env es "take k (events w)"] l
    by simp
  note f = same_player_fields [OF sp]
  have pe: "pendingEvent w2 = Some c" using f(2) p by (simp add: w1)
  have r: "add env None es w = w2\<lparr>events := q1 @ drop k (events w)\<rparr>"
    using add_splice [of env es None w q1 w2] l i pe by (simp add: playIfIdle_def)
  show "events (add env None es w) = take k (events w) @ pushed es (nextObj w) @ drop k (events w)"
    by (simp add: r q1)
  show "pendingFn (add env None es w) = Some (k + length es)" using f(3) by (simp add: r w1)
  show "pendingEvent (add env None es w) = Some c" using pe by (simp add: r)
  show "nextObj (add env None es w) = nextAfter es (nextObj w)" using n2 by (simp add: r)
  show "dogs (add env None es w) = dogs w" using f(11) by (simp add: r w1)
  show "dogFailed (add env None es w) = dogFailed w" using f(12) by (simp add: r w1)
  show "hostq (add env None es w) = hostq w" using f(7) by (simp add: r w1)
  show "trace (add env None es w) = trace w" using f(9) by (simp add: r w1)
  show "hung (add env None es w) = hung w" using f(10) by (simp add: r w1)
  show "paused (add env None es w) = paused w" using f(4) by (simp add: r w1)
qed

lemma enterFn_sel:
  "events (enterFn env a f w) = events w" "pendingEvent (enterFn env a f w) = pendingEvent w"
  "pendingFn (enterFn env a f w) = Some 0" "paused (enterFn env a f w) = paused w"
  "objs (enterFn env a f w) = objs w" "nextObj (enterFn env a f w) = nextObj w"
  "hung (enterFn env a f w) = hung w" "trace (enterFn env a f w) = trace w @ [Called a f]"
  "callback (dogs (enterFn env a f w) (nextDog w)) = Some a"
  "dogFailed (enterFn env a f w) (nextDog w) = False"
  "active (enterFn env a f w) = active w"
  using new_WatchDog_live [of "optTimeout env" a False "ev_timeout (objs w a)" "hostq w"]
  by (cases "new_WatchDog (optTimeout env) a False (ev_timeout (objs w a)) (hostq w)";
      simp add: enterFn_def Let_def emit_def)+

lemma playNext_shift:
  assumes "pendingEvent w = None" "paused w = 0" "events w = a # rest"
  shows "events (playNext w) = rest" "pendingEvent (playNext w) = Some a"
    "trace (playNext w) = trace w" "state (objs (playNext w) a) = ''pending''"
    "b \<noteq> a \<Longrightarrow> objs (playNext w) b = objs w b"
  using assms
  by (simp_all add: playNext_def playEventSoon_def ST_defer_def upd_def Let_def)

lemma playNext_idle:
  assumes "pendingEvent w = None" "paused w = 0" "events w = []"
  shows "events (playNext w) = []" "pendingEvent (playNext w) = None"
    "trace (playNext w) = trace w @ [FiredEnd]" "objs (playNext w) = objs w"
  using assms by (simp_all add: playNext_def onEnd_def emit_def)

lemma playNext_blocked:
  assumes "pendingEvent w \<noteq> None \<or> paused w \<noteq> 0"
  shows "playNext w = w"
  using assms by (auto simp: playNext_def)

text \<open>After a function without parameters returned: \<open>done()\<close> completes the event.\<close>

lemma leaveFn_returns:
  assumes sc: "outcome (script env f) = Returns" "arity (script env f) = 0"
    and h: "\<not> hung w" and live: "callback (dogs w d) = Some a" and nf: "\<not> dogFailed w d"
  shows "\<exists>w'. leaveFn env d f w = playNext (upd a (\<lambda>p. p\<lparr>state := ''done''\<rparr>) w')
           \<and> events w' = events w \<and> pendingEvent w' = None \<and> paused w' = paused w
           \<and> objs w' = objs w \<and> trace w' = trace w \<and> nextObj w' = nextObj w"
proof -
  let ?w4 = "w\<lparr>pendingFn := None, pendingEvent := None\<rparr>"
  obtain wd h' r where fr: "wd_done (dogs ?w4 d, hostq ?w4) = ((wd, h'), r)"
    by (cases "wd_done (dogs ?w4 d, hostq ?w4)") auto
  from wd_fire_live [of "(dogs w d, hostq w)" a Null] live fr
  have r: "r = Some (a, Null)" by (simp add: wd_done_def)
  let ?w5 = "?w4\<lparr>dogs := (dogs ?w4)(d := wd), hostq := h'\<rparr>"
  have "leaveFn env d f w =
          playNext (upd a (\<lambda>p. p\<lparr>state := ''done''\<rparr>) (?w5\<lparr>pendingEvent := None\<rparr>))"
    using sc h nf fr r by (simp add: leaveFn_def Let_def dog_apply_def dog_callback_def)
  then show ?thesis by (intro exI [of _ "?w5\<lparr>pendingEvent := None\<rparr>"]) simp
qed

lemma pushed_length: "Falsy \<notin> set es \<Longrightarrow> length (pushed es n) = length es"
proof (induction es arbitrary: n)
  case Nil
  show ?case by simp
next
  case (Cons e es)
  then show ?case by (cases e) simp_all
qed

text \<open>A callback without parameters that calls \<open>add\<close> twice and returns.\<close>

lemma playFn_two_adds:
  assumes sc: "script env f = \<lparr>arity = 0, body = [AAdd es1, AAdd es2], outcome = Returns\<rparr>"
    and p: "pendingEvent w = Some a" and h: "\<not> hung w" and z: "paused w = 0"
    and q: "take (length es1) (pushed es1 (nextObj w) @ events w)
              @ pushed es2 (nextAfter es1 (nextObj w))
              @ drop (length es1) (pushed es1 (nextObj w) @ events w) = x # rest"
  shows "events (playFn env a f w) = rest"
    and "pendingEvent (playFn env a f w) = Some x"
    and "trace (playFn env a f w) = trace w @ [Called a f]"
proof -
  let ?d = "nextDog w"
  let ?w2 = "enterFn env a f w"
  let ?w3 = "add env None es1 ?w2"
  let ?w4 = "add env None es2 ?w3"
  have p2: "pendingEvent ?w2 = Some a" "pendingFn ?w2 = Some 0"
    by (simp_all add: enterFn_sel p)
  note a1 = add_busy [OF p2, of env es1]
  have p3: "pendingEvent ?w3 = Some a" "pendingFn ?w3 = Some (0 + length es1)"
    using a1 by simp_all
  note a2 = add_busy [OF p3, of env es2]
  have rb: "run_body env ?d (body (script env f)) ?w2 = ?w4"
    using h a1(9) by (simp add: sc enterFn_sel)
  have e4: "events ?w4 = x # rest"
    using q a1(1,4) a2(1) by (simp add: enterFn_sel)
  have h4: "\<not> hung ?w4" using a2(9) a1(9) h by (simp add: enterFn_sel)
  have l4: "callback (dogs ?w4 ?d) = Some a" using a2(5) a1(5) by (simp add: enterFn_sel)
  have f4: "\<not> dogFailed ?w4 ?d" using a2(6) a1(6) by (simp add: enterFn_sel)
  have z4: "paused ?w4 = 0" using a2(10) a1(10) z by (simp add: enterFn_sel)
  have t4: "trace ?w4 = trace w @ [Called a f]" using a2(8) a1(8) by (simp add: enterFn_sel)
  from leaveFn_returns [of env f ?w4 ?d a] h4 l4 f4
  obtain w' where w': "leaveFn env ?d f ?w4 = playNext (upd a (\<lambda>p. p\<lparr>state := ''done''\<rparr>) w')"
    "events w' = events ?w4" "pendingEvent w' = None" "paused w' = paused ?w4"
    "trace w' = trace ?w4"
    by (auto simp: sc)
  let ?w6 = "upd a (\<lambda>p. p\<lparr>state := ''done''\<rparr>) w'"
  have s6: "pendingEvent ?w6 = None" "paused ?w6 = 0" "events ?w6 = x # rest"
    "trace ?w6 = trace w @ [Called a f]"
    using w' e4 z4 t4 by (simp_all add: upd_def)
  have pf: "playFn env a f w = playNext ?w6"
    by (simp only: playFn_def rb w'(1))
  show "events (playFn env a f w) = rest" unfolding pf by (rule playNext_shift(1) [OF s6(1-3)])
  show "pendingEvent (playFn env a f w) = Some x"
    unfolding pf by (rule playNext_shift(2) [OF s6(1-3)])
  show "trace (playFn env a f w) = trace w @ [Called a f]"
    unfolding pf using playNext_shift(3) [OF s6(1-3)] s6(4) by simp
qed

text \<open>
  When no entry is skipped, the items of the two calls sit in front of the old queue in
  the order of the calls.
\<close>

lemma nested_adds_keep_order:
  assumes "Falsy \<notin> set es1"
  shows "take (length es1) (pushed es1 n @ evs) @ pushed es2 m @ drop (length es1) (pushed es1 n @ evs)
           = pushed es1 n @ pushed es2 m @ evs"
  using pushed_length [OF assms, of n] by simp

lemma w_cb3_sel:
  "events w_cb3 = [1, 2]" "pendingEvent w_cb3 = Some 0" "paused w_cb3 = 0"
  "hung w_cb3 = False" "trace w_cb3 = []" "nextObj w_cb3 = 3"
  "armed (hostq w_cb3) = [1]" "timerAct w_cb3 (Suc 0) = TPlayEvent 0 0"
  "fn (objs w_cb3 0) = Some (UserFn 0)" "ready (objs w_cb3 0) = ReadyDefault"
  "target (objs w_cb3 0) = TUndef" "relatedTarget (objs w_cb3 0) = TUndef"
  by (simp_all add: w_cb3_def start_add_defs)

lemma env_skip_sel:
  "script env_skip (UserFn 0) =
     \<lparr>arity = 0, body = [AAdd [Falsy, EFn (UserFn 3)], AAdd [EFn (UserFn 4)]], outcome = Returns\<rparr>"
  "animating env_skip = False"
  by (simp_all add: env_skip_def script_def env0_def)

text \<open>
  C1 at the failing input: three callbacks are queued and the first is pending; its
  function calls \<open>add([null, fn 3])\<close> and then \<open>add([fn 4])\<close>. The first call skips the
  \<open>null\<close> but advances the marker by 2, so \<open>fn 4\<close> (address 4) is spliced behind the
  playable 1 that was already queued: the queue is 3 (pending), 1, 4, 2.
\<close>

theorem skipped_entry_breaks_nested_order:
  "events w_cb3 = [1, 2] \<and> pendingEvent w_cb3 = Some 0
   \<and> events (step env_skip (TimerFires 1) w_cb3) = [1, 4, 2]
   \<and> pendingEvent (step env_skip (TimerFires 1) w_cb3) = Some 3
   \<and> trace (step env_skip (TimerFires 1) w_cb3) = [Called 0 (UserFn 0)]"
proof -
  let ?w = "w_cb3\<lparr>hostq := ST_deferCancel 1 (hostq w_cb3), eventTimer := 0\<rparr>"
  let ?w1 = "upd 0 (\<lambda>p. p\<lparr>waitingFor := None, waitingState := None\<rparr>) ?w"
  let ?w2 = "upd 0 (\<lambda>p. p\<lparr>state := ''playing''\<rparr>) ?w1"
  have s: "step env_skip (TimerFires 1) w_cb3 = playEvent env_skip 0 ?w"
    by (rule step_event_timer [where d = 0]) (simp_all add: w_cb3_sel)
  have p: "playEvent env_skip 0 ?w = playFn env_skip 0 (UserFn 0) ?w2"
    by (rule playEvent_callback) (simp_all add: w_cb3_sel env_skip_sel)
  have pe: "pendingEvent ?w2 = Some 0" "\<not> hung ?w2" "paused ?w2 = 0"
    by (simp_all add: upd_def w_cb3_sel)
  have q: "take (length [Falsy, EFn (UserFn 3)]) (pushed [Falsy, EFn (UserFn 3)] (nextObj ?w2) @ events ?w2)
              @ pushed [EFn (UserFn 4)] (nextAfter [Falsy, EFn (UserFn 3)] (nextObj ?w2))
              @ drop (length [Falsy, EFn (UserFn 3)]) (pushed [Falsy, EFn (UserFn 3)] (nextObj ?w2) @ events ?w2)
           = 3 # [1, 4, 2]"
    by (simp add: upd_def w_cb3_sel)
  note r = playFn_two_adds [OF env_skip_sel(1) pe q]
  have t: "trace ?w2 = []" by (simp add: upd_def w_cb3_sel)
  show ?thesis
    unfolding s p using r t by (simp add: w_cb3_sel)
qed

section \<open>Readiness: what \<open>isReady\<close> changes\<close>
































section \<open>The timeout clock of a waiting playable\<close>















section \<open>Failures: \<open>fail\<close>, \<open>doError\<close> and \<open>doTimeout\<close>\<close>




















section \<open>The two timeout clocks\<close>






































section \<open>The states of a playable\<close>












































end
